theory Spec2Isabelle
  imports Complex_Main "HOL-Library.Word"
begin

section \<open>Burst fragmentation (vr\_burst\_sender.py)\<close>

text \<open>
  Python integers are unbounded, so sizes are \<^typ>\<open>int\<close>. Python's \<open>//\<close> and \<open>%\<close>
  round towards minus infinity, as \<open>div\<close> and \<open>mod\<close> on \<^typ>\<open>int\<close> do.
  Every \<open>raise ValueError(...)\<close> of \<open>fragment_burst\<close> is a constructor of
  \<open>frag_error\<close>, named after its message.
\<close>

datatype frag_error =
    BurstTooSmall          \<comment> \<open>"Burst size must be at least the header size"\<close>
  | FragmentSizeTooSmall   \<comment> \<open>"Fragment size must be at least the header size"\<close>
  | SecondToLastTooSmall   \<comment> \<open>"Second-to-last fragment would be too small"\<close>
  | LastTooSmall           \<comment> \<open>"Last fragment would be too small"\<close>

definition SEQTS_SIZE_FRAG_HEADER_LEN :: int where
  "SEQTS_SIZE_FRAG_HEADER_LEN = 24"

text \<open>
  Lines 54 to 68 of \<open>fragment_burst\<close>: the values of the local variables
  \<open>(num_full_frags, second_to_last_size, last_frag_size)\<close> after the reservation of the
  second-to-last fragment and the merge of an undersized remainder.
\<close>

definition fragment_sizes :: "int \<Rightarrow> int \<Rightarrow> int \<times> int \<times> int" where
  "fragment_sizes burst_size fragment_size =
     (let num_full_frags = burst_size div fragment_size;
          last_frag_size = burst_size mod fragment_size;
          second_to_last_size = (if num_full_frags > 0 then fragment_size else 0);
          num_full_frags = (if num_full_frags > 0 then num_full_frags - 1 else num_full_frags)
      in if second_to_last_size > 0 \<and> last_frag_size > 0
            \<and> last_frag_size < SEQTS_SIZE_FRAG_HEADER_LEN
         then (num_full_frags,
               fragment_size + last_frag_size - SEQTS_SIZE_FRAG_HEADER_LEN,
               SEQTS_SIZE_FRAG_HEADER_LEN)
         else (num_full_frags, second_to_last_size, last_frag_size))"

text \<open>
  The whole function. \<open>[full_payload] * num_full_frags\<close> is \<open>replicate\<close> (a negative
  count gives the empty list in Python, as \<open>nat\<close> of a negative number gives 0);
  the truth value of an integer is "not zero". The result is the pair
  \<open>(burst_payload, fragments)\<close>.
\<close>

definition fragment_burst :: "int \<Rightarrow> int \<Rightarrow> frag_error + (int \<times> int list)" where
  "fragment_burst burst_size fragment_size =
     (if burst_size < SEQTS_SIZE_FRAG_HEADER_LEN then Inl BurstTooSmall
      else if fragment_size < SEQTS_SIZE_FRAG_HEADER_LEN then Inl FragmentSizeTooSmall
      else
        (case fragment_sizes burst_size fragment_size of
           (num_full_frags, second_to_last_size, last_frag_size) \<Rightarrow>
             if second_to_last_size \<noteq> 0 \<and> second_to_last_size < SEQTS_SIZE_FRAG_HEADER_LEN
             then Inl SecondToLastTooSmall
             else if last_frag_size \<noteq> 0 \<and> last_frag_size < SEQTS_SIZE_FRAG_HEADER_LEN
             then Inl LastTooSmall
             else
               (let full_payload = fragment_size - SEQTS_SIZE_FRAG_HEADER_LEN;
                    fragments = replicate (nat num_full_frags) full_payload;
                    fragments = (if second_to_last_size \<noteq> 0
                                 then fragments @ [second_to_last_size - SEQTS_SIZE_FRAG_HEADER_LEN]
                                 else fragments);
                    fragments = (if last_frag_size \<noteq> 0
                                 then fragments @ [last_frag_size - SEQTS_SIZE_FRAG_HEADER_LEN]
                                 else fragments);
                    total_frags = int (length fragments);
                    burst_payload = burst_size - SEQTS_SIZE_FRAG_HEADER_LEN * total_frags
                in Inr (burst_payload, fragments))))"

section \<open>Header encoding (vr\_burst\_sender.py)\<close>

text \<open>
  \<open>HEADER_STRUCT = struct.Struct("!HHQIQ")\<close>: the prefix \<open>!\<close> selects network byte
  order (big-endian), standard sizes and no padding; \<open>H\<close>, \<open>I\<close> and \<open>Q\<close> are unsigned
  integers of 2, 4 and 8 bytes. \<open>pack\<close> raises \<open>struct.error\<close> when a value does not
  fit its field or when the number of values is not the number of fields.
\<close>

type_synonym byte = "8 word"

datatype fmt_char = Fmt_H | Fmt_I | Fmt_Q

datatype pack_error = StructError

fun fmt_size :: "fmt_char \<Rightarrow> nat" where
  "fmt_size Fmt_H = 2"
| "fmt_size Fmt_I = 4"
| "fmt_size Fmt_Q = 8"

text \<open>The \<open>n\<close> low-order bytes of \<open>v\<close>, most significant byte first.\<close>

fun be_bytes :: "nat \<Rightarrow> int \<Rightarrow> byte list" where
  "be_bytes 0 v = []"
| "be_bytes (Suc n) v = be_bytes n (v div 256) @ [word_of_int (v mod 256)]"

definition pack_field :: "fmt_char \<Rightarrow> int \<Rightarrow> pack_error + byte list" where
  "pack_field c v =
     (if 0 \<le> v \<and> v < 2 ^ (8 * fmt_size c) then Inr (be_bytes (fmt_size c) v)
      else Inl StructError)"

fun struct_pack :: "fmt_char list \<Rightarrow> int list \<Rightarrow> pack_error + byte list" where
  "struct_pack [] [] = Inr []"
| "struct_pack (c # cs) (v # vs) =
     (case pack_field c v of
        Inl e \<Rightarrow> Inl e
      | Inr bs \<Rightarrow> (case struct_pack cs vs of Inl e \<Rightarrow> Inl e | Inr rest \<Rightarrow> Inr (bs @ rest)))"
| "struct_pack _ _ = Inl StructError"

definition HEADER_STRUCT :: "fmt_char list" where
  "HEADER_STRUCT = [Fmt_H, Fmt_H, Fmt_Q, Fmt_I, Fmt_Q]"

text \<open>
  \<open>build_header\<close> reads the clock with \<open>time.time_ns()\<close>; the value read is the
  parameter \<open>time_ns\<close>. The result is the pair \<open>(header bytes, timestamp)\<close>.
\<close>

definition build_header ::
    "int \<Rightarrow> int \<Rightarrow> int \<Rightarrow> int \<Rightarrow> int \<Rightarrow> pack_error + (byte list \<times> int)" where
  "build_header frag_seq total_frags burst_payload burst_seq time_ns =
     (let timestamp = time_ns
      in case struct_pack HEADER_STRUCT
                [frag_seq, total_frags, burst_payload, burst_seq, timestamp] of
           Inl e \<Rightarrow> Inl e
         | Inr header \<Rightarrow> Inr (header, timestamp))"

text \<open>
  The reading of a byte string as a big-endian unsigned integer, as the wire format of
  the specification defines it; \<open>build_header\<close> is compared with it.
\<close>

definition be_value :: "byte list \<Rightarrow> int" where
  "be_value bs = foldl (\<lambda>acc b. 256 * acc + uint b) 0 bs"

text \<open>The field of \<open>n\<close> bytes at offset \<open>off\<close> of a buffer.\<close>

definition field_at :: "nat \<Rightarrow> nat \<Rightarrow> byte list \<Rightarrow> byte list" where
  "field_at off n bs = take n (drop off bs)"

section \<open>Python floats\<close>

text \<open>
  A Python float is an IEEE 754 double: a finite value, an infinity or NaN. A finite
  double is carried by its real value (the two zeros are one value); every arithmetic
  result is rounded to the nearest double, ties to the even significand, as the hardware
  does. A double has a significand of 53 bits; the exponent of its last bit is at least
  \<open>-1074\<close> (subnormal numbers), and a rounded magnitude of \<open>2^1024\<close> or more is an
  infinity.
\<close>

datatype pyfloat = Finite real | PosInf | NegInf | NaN

definition round_half_even :: "real \<Rightarrow> int" where
  "round_half_even x =
     (let n = \<lfloor>x\<rfloor>; d = x - of_int n
      in if d < 1 / 2 then n else if 1 / 2 < d then n + 1
         else if even n then n else n + 1)"

text \<open>The exponent of the last significand bit of the doubles around \<open>x\<close>.\<close>

definition ulp_exponent :: "real \<Rightarrow> int" where
  "ulp_exponent x = max (\<lfloor>log 2 \<bar>x\<bar>\<rfloor> - 52) (- 1074)"

text \<open>Rounding to the nearest double, before the test for overflow.\<close>

definition round_double :: "real \<Rightarrow> real" where
  "round_double x =
     (if x = 0 then 0
      else of_int (round_half_even (x / 2 powi ulp_exponent x)) * 2 powi ulp_exponent x)"

definition to_float :: "real \<Rightarrow> pyfloat" where
  "to_float x =
     (let y = round_double x
      in if 2 ^ 1024 \<le> y then PosInf else if y \<le> - (2 ^ 1024) then NegInf else Finite y)"

text \<open>\<open>a + b\<close> on floats.\<close>

fun float_add :: "pyfloat \<Rightarrow> pyfloat \<Rightarrow> pyfloat" where
  "float_add NaN _ = NaN"
| "float_add _ NaN = NaN"
| "float_add PosInf NegInf = NaN"
| "float_add NegInf PosInf = NaN"
| "float_add PosInf _ = PosInf"
| "float_add _ PosInf = PosInf"
| "float_add NegInf _ = NegInf"
| "float_add _ NegInf = NegInf"
| "float_add (Finite a) (Finite b) = to_float (a + b)"

text \<open>\<open>a < b\<close> and \<open>a >= b\<close> on floats: every comparison with NaN is false.\<close>

fun float_lt :: "pyfloat \<Rightarrow> pyfloat \<Rightarrow> bool" where
  "float_lt NaN _ = False"
| "float_lt _ NaN = False"
| "float_lt (Finite a) (Finite b) = (a < b)"
| "float_lt PosInf _ = False"
| "float_lt _ NegInf = False"
| "float_lt _ PosInf = True"
| "float_lt NegInf _ = True"

fun float_ge :: "pyfloat \<Rightarrow> pyfloat \<Rightarrow> bool" where
  "float_ge NaN _ = False"
| "float_ge _ NaN = False"
| "float_ge (Finite a) (Finite b) = (a \<ge> b)"
| "float_ge PosInf _ = True"
| "float_ge _ NegInf = True"
| "float_ge _ PosInf = False"
| "float_ge NegInf _ = False"

text \<open>\<open>a / b\<close> on finite doubles with a finite, non-zero divisor and a quotient in range.\<close>

definition double_div :: "real \<Rightarrow> real \<Rightarrow> real" where
  "double_div a b = round_double (a / b)"

section \<open>Trace replay (burst\_generators.py)\<close>

text \<open>
  A Python \<open>str\<close> is a sequence of Unicode code points, here a list of natural numbers.
  \<open>TraceFileBurstGenerator._load_trace\<close> iterates over the rows of \<open>csv.reader\<close>,
  each row a list of strings; the model starts from that list of rows. The built-in
  conversions \<open>int(...)\<close> and \<open>float(...)\<close> are the parameters \<open>py_int\<close> and
  \<open>py_float\<close>, with \<open>None\<close> for \<open>ValueError\<close>; \<open>float(...)\<close> may return an infinity
  or NaN. The three \<open>raise ValueError\<close> are the constructors of \<open>trace_error\<close>; the
  two raised inside the loop carry the row number of \<open>enumerate(reader, start=1)\<close>.
\<close>

type_synonym pystr = "nat list"

text \<open>A literal of ASCII characters as a Python string.\<close>

definition codepoints :: "string \<Rightarrow> pystr" where
  "codepoints s = map of_char s"

datatype trace_error =
    InvalidRow nat       \<comment> \<open>"Invalid row #\{row\_num\} in ..."\<close>
  | NegativePeriod nat   \<comment> \<open>"Period must be non-negative (row #\{row\_num\}, ...)"\<close>
  | NoBursts             \<comment> \<open>"No bursts found in ... after start\_time=..."\<close>

record TraceFileBurstGenerator =
  start_time :: pyfloat
  bursts :: "(int \<times> pyfloat) list"
  trace_duration :: pyfloat

text \<open>
  \<open>str.strip()\<close> removes the leading and trailing characters for which
  \<open>str.isspace\<close> holds: U+0009 to U+000D, U+001C to U+0020, U+0085, U+00A0, U+1680,
  U+2000 to U+200A, U+2028, U+2029, U+202F, U+205F and U+3000.
\<close>

definition isspace :: "nat \<Rightarrow> bool" where
  "isspace c =
     ((9 \<le> c \<and> c \<le> 13) \<or> (28 \<le> c \<and> c \<le> 32) \<or> c = 133 \<or> c = 160 \<or> c = 5760
      \<or> (8192 \<le> c \<and> c \<le> 8202) \<or> c = 8232 \<or> c = 8233 \<or> c = 8239 \<or> c = 8287
      \<or> c = 12288)"

definition strip :: "pystr \<Rightarrow> pystr" where
  "strip s = rev (dropWhile isspace (rev (dropWhile isspace s)))"

definition startswith :: "pystr \<Rightarrow> pystr \<Rightarrow> bool" where
  "startswith s prefix = (take (length prefix) s = prefix)"

text \<open>
  Lines 56 to 69, the part of the loop body that reads one row: the row is skipped
  (\<open>continue\<close>), is invalid (\<open>ValueError\<close> from a conversion or \<open>IndexError\<close> from
  \<open>stripped_row[1]\<close>, both caught by the same \<open>except\<close>), or yields
  \<open>(burst_size, period)\<close>.
\<close>

datatype row_result = Skip | Invalid | Data int pyfloat

definition read_row ::
    "(pystr \<Rightarrow> int option) \<Rightarrow> (pystr \<Rightarrow> pyfloat option) \<Rightarrow> pystr list \<Rightarrow> row_result" where
  "read_row py_int py_float row =
     (if row = [] then Skip
      else
        (let stripped_row = map strip row
         in if stripped_row ! 0 = [] \<or> startswith (stripped_row ! 0) (codepoints ''#'')
            then Skip
            else if list_all (\<lambda>col. col = []) stripped_row then Skip
            else
              (case py_int (stripped_row ! 0) of
                 None \<Rightarrow> Invalid
               | Some burst_size \<Rightarrow>
                   if length stripped_row < 2 then Invalid
                   else
                     (case py_float (stripped_row ! 1) of
                        None \<Rightarrow> Invalid
                      | Some period \<Rightarrow> Data burst_size period))))"

text \<open>
  The loop of \<open>_load_trace\<close>, from row number \<open>row_num\<close> on, with the local variable
  \<open>cumulative_start\<close> and the object \<open>self\<close> passed along. The two running sums are
  float additions, rounded at every step.
\<close>

fun load_rows ::
    "(pystr \<Rightarrow> int option) \<Rightarrow> (pystr \<Rightarrow> pyfloat option) \<Rightarrow> nat \<Rightarrow> pystr list list
     \<Rightarrow> pyfloat \<Rightarrow> TraceFileBurstGenerator \<Rightarrow> trace_error + TraceFileBurstGenerator" where
  "load_rows py_int py_float row_num [] cumulative_start self = Inr self"
| "load_rows py_int py_float row_num (row # rows) cumulative_start self =
     (case read_row py_int py_float row of
        Skip \<Rightarrow> load_rows py_int py_float (Suc row_num) rows cumulative_start self
      | Invalid \<Rightarrow> Inl (InvalidRow row_num)
      | Data burst_size period \<Rightarrow>
          if float_lt period (Finite 0) then Inl (NegativePeriod row_num)
          else
            load_rows py_int py_float (Suc row_num) rows (float_add cumulative_start period)
              (if float_ge cumulative_start (start_time self)
               then self\<lparr>bursts := bursts self @ [(burst_size, period)],
                         trace_duration := float_add (trace_duration self) period\<rparr>
               else self))"

definition load_trace ::
    "(pystr \<Rightarrow> int option) \<Rightarrow> (pystr \<Rightarrow> pyfloat option) \<Rightarrow> pystr list list
     \<Rightarrow> TraceFileBurstGenerator \<Rightarrow> trace_error + TraceFileBurstGenerator" where
  "load_trace py_int py_float rows self =
     (case load_rows py_int py_float 1 rows (Finite 0) self of
        Inl e \<Rightarrow> Inl e
      | Inr self' \<Rightarrow> if bursts self' = [] then Inl NoBursts else Inr self')"

text \<open>
  \<open>TraceFileBurstGenerator.__init__\<close>, on the rows of the trace file; \<open>start_time'\<close> is
  the value of \<open>float(start_time)\<close>.
\<close>

definition TraceFileBurstGenerator_init ::
    "(pystr \<Rightarrow> int option) \<Rightarrow> (pystr \<Rightarrow> pyfloat option) \<Rightarrow> pystr list list \<Rightarrow> pyfloat
     \<Rightarrow> trace_error + TraceFileBurstGenerator" where
  "TraceFileBurstGenerator_init py_int py_float rows start_time' =
     load_trace py_int py_float rows
       \<lparr>start_time = start_time', bursts = [], trace_duration = Finite 0\<rparr>"

text \<open>
  What the specification says of the filter, on the rows that carry data: the cumulative
  start of row \<open>i\<close> is the sum of the periods of the rows before it, added from 0.0 in
  file order, and the retained rows are those whose cumulative start is at least the
  start time, in file order.
\<close>

definition data_rows ::
    "(pystr \<Rightarrow> int option) \<Rightarrow> (pystr \<Rightarrow> pyfloat option) \<Rightarrow> pystr list list
     \<Rightarrow> (int \<times> pyfloat) list" where
  "data_rows py_int py_float rows =
     concat (map (\<lambda>row. case read_row py_int py_float row of
                           Data burst_size period \<Rightarrow> [(burst_size, period)]
                         | _ \<Rightarrow> []) rows)"

definition float_sum :: "pyfloat list \<Rightarrow> pyfloat" where
  "float_sum xs = foldl float_add (Finite 0) xs"

definition cumulative_start_of :: "(int \<times> pyfloat) list \<Rightarrow> nat \<Rightarrow> pyfloat" where
  "cumulative_start_of rs i = float_sum (map snd (take i rs))"

definition retained_rows :: "pyfloat \<Rightarrow> (int \<times> pyfloat) list \<Rightarrow> (int \<times> pyfloat) list" where
  "retained_rows start rs =
     map (\<lambda>i. rs ! i) (filter (\<lambda>i. float_ge (cumulative_start_of rs i) start) [0..<length rs])"

text \<open>
  The same filter as a recursion over the rows, from a cumulative start \<open>c\<close>; it links
  the loop to \<open>retained_rows\<close>.
\<close>

fun retained_from ::
    "pyfloat \<Rightarrow> pyfloat \<Rightarrow> (int \<times> pyfloat) list \<Rightarrow> (int \<times> pyfloat) list" where
  "retained_from start c [] = []"
| "retained_from start c (r # rs) =
     (if float_ge c start then [r] else []) @ retained_from start (float_add c (snd r)) rs"

text \<open>A row that stops the load: it is read as invalid, or its period is negative.\<close>

definition malformed ::
    "(pystr \<Rightarrow> int option) \<Rightarrow> (pystr \<Rightarrow> pyfloat option) \<Rightarrow> pystr list \<Rightarrow> bool" where
  "malformed py_int py_float row =
     (case read_row py_int py_float row of
        Skip \<Rightarrow> False
      | Invalid \<Rightarrow> True
      | Data burst_size period \<Rightarrow> float_lt period (Finite 0))"

definition row_error ::
    "(pystr \<Rightarrow> int option) \<Rightarrow> (pystr \<Rightarrow> pyfloat option) \<Rightarrow> pystr list \<Rightarrow> nat \<Rightarrow> trace_error" where
  "row_error py_int py_float row row_num =
     (case read_row py_int py_float row of
        Data burst_size period \<Rightarrow> NegativePeriod row_num
      | _ \<Rightarrow> InvalidRow row_num)"

section \<open>The VR traffic model (burst\_generators.py)\<close>

datatype VrAppName = VirusPopper | Minecraft | GoogleEarthVrCities | GoogleEarthVrTour

record VrModelCoefficients =
  alpha :: real
  beta :: real
  gamma :: "real option"
  delta :: "real option"
  epsilon :: "real option"

text \<open>The dictionary \<open>_VR_MODELS\<close>, with its literal entries in source order.\<close>

definition VR_MODELS :: "VrAppName \<rightharpoonup> VrModelCoefficients" where
  "VR_MODELS = map_of
     [(VirusPopper,
         \<lparr>alpha = 0.17843005544386825, beta = - 0.24033549,
          gamma = Some 0.03720502322046791, delta = Some 0.014333111298430356,
          epsilon = Some 0.17636808\<rparr>),
      (Minecraft,
         \<lparr>alpha = 0.18570635904452573, beta = - 0.18721216,
          gamma = Some 0.07132669841811076, delta = Some 0.024192743507827373,
          epsilon = Some 0.22666163\<rparr>),
      (GoogleEarthVrCities,
         \<lparr>alpha = 0.259684566301378, beta = - 0.25390119,
          gamma = Some 0.034571656202610615, delta = Some 0.008953037116942649,
          epsilon = Some 0.3119082\<rparr>),
      (GoogleEarthVrTour,
         \<lparr>alpha = 0.25541435742159037, beta = - 0.20308171,
          gamma = Some 0.03468230656563422, delta = Some 0.010559650431826953,
          epsilon = Some 0.27560183\<rparr>)]"

text \<open>
  In this part a float is the real value of a finite double, and sums, products and
  the logarithm are exact. The quotient \<open>target_rate_bps / 1e6\<close> is rounded as the
  division of doubles rounds it, because the rounding decides what the constructor
  does: for a positive rate below about \<open>2.5e-318\<close> the quotient is \<open>0.0\<close>, and
  \<open>math.pow\<close> of \<open>0.0\<close> and a negative exponent raises.
\<close>

text \<open>
  The exceptions of the model code: the \<open>ValueError\<close>s raised by the constructor and by
  \<open>_setup_model\<close>, the \<open>KeyError\<close> of a dictionary lookup, the failed \<open>assert\<close> of
  \<open>generate_burst\<close>, and those of the arithmetic (\<open>math.log\<close> and \<open>math.pow\<close> outside
  their domain, division by zero).
\<close>

datatype vr_error =
    InvalidFrameRate      \<comment> \<open>"Frame rate must be either 30 or 60 FPS"\<close>
  | InvalidRate           \<comment> \<open>"Target data rate must be positive"\<close>
  | MissingGamma          \<comment> \<open>"Missing gamma coefficient for ..."\<close>
  | MissingDeltaEpsilon   \<comment> \<open>"Missing delta/epsilon coefficients for ..."\<close>
  | KeyError
  | AssertionError
  | MathDomainError
  | ZeroDivisionError

definition math_log :: "real \<Rightarrow> vr_error + real" where
  "math_log x = (if x \<le> 0 then Inl MathDomainError else Inr (ln x))"

text \<open>
  \<open>math.pow(x, y)\<close>: a domain error for a zero base with a negative exponent and for a
  negative base with an exponent that is not an integer; \<open>pow(x, 0) = 1\<close>.
\<close>

definition math_pow :: "real \<Rightarrow> real \<Rightarrow> vr_error + real" where
  "math_pow x y =
     (if 0 < x then Inr (x powr y)
      else if y = 0 then Inr 1
      else if x = 0 then (if y < 0 then Inl MathDomainError else Inr 0)
      else if y = of_int \<lfloor>y\<rfloor> then Inr (power_int x \<lfloor>y\<rfloor>)
      else Inl MathDomainError)"

record LogisticRandomVariable =
  location :: real
  scale :: real
  bound :: real

definition INFINITE_BOUND :: real where
  "INFINITE_BOUND = 10 ^ 307"

definition LogisticRandomVariable_init ::
    "real \<Rightarrow> real \<Rightarrow> real option \<Rightarrow> LogisticRandomVariable" where
  "LogisticRandomVariable_init location' scale' bound' =
     \<lparr>location = location', scale = scale',
      bound = (case bound' of Some b \<Rightarrow> b | None \<Rightarrow> INFINITE_BOUND)\<rparr>"

text \<open>
  The rejection loop of \<open>sample\<close>. The random source is the list of the values that the
  successive calls of \<open>random.random()\<close> return; each turn of the loop takes one. The
  result is \<open>None\<close> when every listed draw has been rejected (the loop is still
  running), an exception, or the accepted candidate with the draws that remain.
\<close>

fun sample ::
    "LogisticRandomVariable \<Rightarrow> real list \<Rightarrow> (vr_error + real \<times> real list) option" where
  "sample self [] = None"
| "sample self (u # us) =
     (if u = 0 \<or> u = 1 then sample self us
      else
        (case math_log (u / (1 - u)) of
           Inl e \<Rightarrow> Some (Inl e)
         | Inr lg \<Rightarrow>
             (let candidate = location self + scale self * lg
              in if \<bar>candidate - location self\<bar> \<le> bound self
                 then Some (Inr (candidate, us))
                 else sample self us)))"

text \<open>\<open>int(x)\<close> of a float truncates towards zero.\<close>

definition int_of_float :: "real \<Rightarrow> int" where
  "int_of_float x = (if 0 \<le> x then \<lfloor>x\<rfloor> else \<lceil>x\<rceil>)"

definition sample_int ::
    "LogisticRandomVariable \<Rightarrow> real list \<Rightarrow> (vr_error + int \<times> real list) option" where
  "sample_int self us =
     (case sample self us of
        None \<Rightarrow> None
      | Some (Inl e) \<Rightarrow> Some (Inl e)
      | Some (Inr (x, us')) \<Rightarrow> Some (Inr (int_of_float x, us')))"

record VrBurstGenerator =
  app :: VrAppName
  frame_rate :: real
  target_rate_bps :: real
  frame_rv :: "LogisticRandomVariable option"
  period_rv :: "LogisticRandomVariable option"

definition setup_model :: "VrBurstGenerator \<Rightarrow> vr_error + VrBurstGenerator" where
  "setup_model self =
     (case VR_MODELS (app self) of
        None \<Rightarrow> Inl KeyError
      | Some coeffs \<Rightarrow>
          if frame_rate self = 0 then Inl ZeroDivisionError
          else
            (let target_mbps = double_div (target_rate_bps self) 1000000;
                 frame_size_avg = target_rate_bps self / 8 / frame_rate self;
                 ifi_avg = 1 / frame_rate self
             in case math_pow target_mbps (beta coeffs) of
                  Inl e \<Rightarrow> Inl e
                | Inr p \<Rightarrow>
                    (let frame_dispersion = alpha coeffs * p;
                         frame_scale = frame_size_avg * frame_dispersion;
                         self = self\<lparr>frame_rv := Some (LogisticRandomVariable_init
                                   frame_size_avg frame_scale (Some frame_size_avg))\<rparr>;
                         finish = (\<lambda>ifi_dispersion.
                           (let ifi_scale = ifi_avg * ifi_dispersion
                            in self\<lparr>period_rv := Some (LogisticRandomVariable_init
                                   ifi_avg ifi_scale (Some ifi_avg))\<rparr>))
                     in if frame_rate self = 60
                        then (case gamma coeffs of
                                None \<Rightarrow> Inl MissingGamma
                              | Some g \<Rightarrow> Inr (finish g))
                        else (case (delta coeffs, epsilon coeffs) of
                                (Some d, Some e) \<Rightarrow>
                                  (case math_pow target_mbps e of
                                     Inl err \<Rightarrow> Inl err
                                   | Inr q \<Rightarrow> Inr (finish (d * q)))
                              | _ \<Rightarrow> Inl MissingDeltaEpsilon))))"

text \<open>\<open>VrBurstGenerator.__init__\<close>.\<close>

definition VrBurstGenerator_init ::
    "VrAppName \<Rightarrow> real \<Rightarrow> real \<Rightarrow> vr_error + VrBurstGenerator" where
  "VrBurstGenerator_init app_name frame_rate' target_data_rate_bps =
     (if frame_rate' \<notin> {30, 60} then Inl InvalidFrameRate
      else if target_data_rate_bps \<le> 0 then Inl InvalidRate
      else setup_model
             \<lparr>app = app_name, frame_rate = frame_rate',
              target_rate_bps = target_data_rate_bps,
              frame_rv = None, period_rv = None\<rparr>)"

text \<open>
  \<open>generate_burst\<close> draws the frame size first and the period from the draws that
  remain. The result is \<open>((burst_size, period), remaining draws)\<close>.
\<close>

definition generate_burst ::
    "VrBurstGenerator \<Rightarrow> real list \<Rightarrow> (vr_error + (int \<times> real) \<times> real list) option" where
  "generate_burst self us =
     (case (frame_rv self, period_rv self) of
        (Some frv, Some prv) \<Rightarrow>
          (case sample_int frv us of
             None \<Rightarrow> None
           | Some (Inl e) \<Rightarrow> Some (Inl e)
           | Some (Inr (n, us')) \<Rightarrow>
               (case sample prv us' of
                  None \<Rightarrow> None
                | Some (Inl e) \<Rightarrow> Some (Inl e)
                | Some (Inr (x, us'')) \<Rightarrow>
                    (let burst_size = max n 24; period = max x 0
                     in Some (Inr ((burst_size, period), us'')))))
      | _ \<Rightarrow> Some (Inl AssertionError))"

section \<open>Rounding to a double\<close>

lemma floor_log2_eq:
  assumes "2 powi k \<le> \<bar>x\<bar>" "\<bar>x\<bar> < 2 powi (k + 1)"
  shows "\<lfloor>log 2 \<bar>x\<bar>\<rfloor> = k"
proof -
  have p: "0 < \<bar>x\<bar>" using assms(1) by (smt (verit) zero_less_power_int)
  have a: "(2::real) powr (of_int k) = 2 powi k" by (simp add: powr_real_of_int')
  have b: "(2::real) powr (of_int (k + 1)) = 2 powi (k + 1)"
    by (rule powr_real_of_int') simp_all
  have "of_int k \<le> log 2 \<bar>x\<bar>" using assms(1) p a by (simp add: le_log_iff)
  moreover have "log 2 \<bar>x\<bar> < of_int (k + 1)" using assms(2) p b
    by (simp add: log_less_iff del: of_int_add)
  ultimately show ?thesis by (simp add: floor_eq_iff)
qed

lemma round_double_eval:
  assumes "2 powi k \<le> \<bar>x\<bar>" "\<bar>x\<bar> < 2 powi (k + 1)" "e = max (k - 52) (- 1074)"
  shows "round_double x = of_int (round_half_even (x / 2 powi e)) * 2 powi e"
proof -
  have "x \<noteq> 0" using assms(1) by (smt (verit) zero_less_power_int abs_zero)
  moreover have "ulp_exponent x = e"
    by (simp add: ulp_exponent_def floor_log2_eq [OF assms(1,2)] assms(3))
  ultimately show ?thesis by (simp add: round_double_def)
qed

lemma round_half_even_ge_1:
  assumes "1 \<le> y"
  shows "1 \<le> round_half_even y"
proof -
  have "1 \<le> \<lfloor>y\<rfloor>" using assms by (simp add: le_floor_iff)
  then show ?thesis by (simp add: round_half_even_def Let_def)
qed

lemma round_double_pos:
  assumes "2 powi (- 1074) \<le> x"
  shows "0 < round_double x"
proof -
  have x: "0 < x" using assms by (smt (verit) zero_less_power_int)
  let ?k = "\<lfloor>log 2 \<bar>x\<bar>\<rfloor>"
  let ?e = "ulp_exponent x"
  have p: "(0::real) < 2 powi ?e" by simp
  have k: "2 powi ?k \<le> x"
  proof -
    have ax: "\<bar>x\<bar> = x" using x by simp
    have b: "(1::real) < 2" by simp
    have "of_int \<lfloor>log 2 x\<rfloor> \<le> log 2 x" by (rule of_int_floor_le)
    then have "2 powr (of_int \<lfloor>log 2 x\<rfloor>) \<le> x"
      using le_log_iff [OF b x] by blast
    moreover have "(2::real) powr (of_int \<lfloor>log 2 x\<rfloor>) = 2 powi \<lfloor>log 2 x\<rfloor>"
      by (rule powr_real_of_int') simp_all
    ultimately show ?thesis unfolding ax by simp
  qed
  have "2 powi ?e \<le> x"
  proof (cases "?k - 52 \<le> - 1074")
    case True
    then have "?e = - 1074" by (simp add: ulp_exponent_def)
    then show ?thesis using assms by simp
  next
    case False
    then have e: "?e = ?k - 52" by (simp add: ulp_exponent_def)
    have "(2::real) powi (?k - 52) \<le> 2 powi ?k"
      by (rule power_int_increasing) simp_all
    then show ?thesis using k e by simp
  qed
  then have "1 \<le> x / 2 powi ?e" using p by (simp add: le_divide_eq)
  then have "1 \<le> round_half_even (x / 2 powi ?e)" by (rule round_half_even_ge_1)
  then have "0 < of_int (round_half_even (x / 2 powi ?e)) * (2::real) powi ?e"
    using p by (simp add: zero_less_mult_iff)
  then show ?thesis using x by (simp add: round_double_def)
qed

lemma double_div_pos:
  assumes "2 powi (- 1054) \<le> rate"
  shows "0 < double_div rate 1000000"
proof -
  have "(2::real) powi (- 1074) * 1000000 \<le> 2 powi (- 1054)"
    by (simp add: power_int_minus field_simps)
  then have "2 powi (- 1074) \<le> rate / 1000000" using assms by (simp add: le_divide_eq)
  then show ?thesis unfolding double_div_def by (rule round_double_pos)
qed

lemma double_div_underflow: "double_div (2 powi (- 1074)) 1000000 = 0"
  unfolding double_div_def
  by (subst round_double_eval [where k = "- 1094" and e = "- 1074"])
     (simp_all add: round_half_even_def power_int_minus field_simps)

lemma double_div_20: "double_div 20000000 1000000 = 20"
  unfolding double_div_def
  by (subst round_double_eval [where k = "4" and e = "- 48"])
     (simp_all add: round_half_even_def power_int_minus field_simps)

section \<open>Properties of the fragmentation\<close>

subsection \<open>The sizes computed before the checks\<close>

lemma fragment_sizes_eq:
  "fragment_sizes b f =
     (if 0 < b div f
      then (if 0 < f \<and> 0 < b mod f \<and> b mod f < 24
            then (b div f - 1, f + b mod f - 24, 24)
            else (b div f - 1, f, b mod f))
      else (b div f, 0, b mod f))"
  by (simp add: fragment_sizes_def Let_def SEQTS_SIZE_FRAG_HEADER_LEN_def)

lemma sizes_total:
  assumes "fragment_sizes b f = (n, s, l)"
  shows "n * f + s + l = b"
proof -
  have e: "b = (b div f) * f + b mod f" by simp
  show ?thesis
  proof (cases "0 < b div f")
    case True
    have "(b div f - 1) * f + f + b mod f = b"
      using e by (simp add: algebra_simps)
    then show ?thesis using assms True
      by (auto simp: fragment_sizes_eq split: if_splits)
  next
    case False
    then show ?thesis using assms e by (auto simp: fragment_sizes_eq)
  qed
qed

lemma small_div:
  assumes "24 \<le> (b::int)" "24 \<le> f" "\<not> 0 < b div f"
  shows "b < f" "b mod f = b" "b div f = 0"
proof -
  have "0 \<le> b div f" using assms by (simp add: pos_imp_zdiv_nonneg_iff)
  then show d: "b div f = 0" using assms by simp
  have "b = (b div f) * f + b mod f" by simp
  then show m: "b mod f = b" using d by simp
  have "b mod f < f" using assms by simp
  then show "b < f" using m by simp
qed

lemma sizes_nonneg:
  assumes "24 \<le> b" "24 \<le> f" "fragment_sizes b f = (n, s, l)"
  shows "0 \<le> n"
  using assms small_div(3)[of b f]
  by (auto simp: fragment_sizes_eq split: if_splits)

lemma sizes_last:
  assumes "24 \<le> b" "24 \<le> f" "fragment_sizes b f = (n, s, l)"
  shows "l = 0 \<or> 24 \<le> l"
proof (cases "b div f > 0")
  case True
  have "0 \<le> b mod f" using assms by simp
  then have "b mod f = 0 \<or> 0 < b mod f" by linarith
  then show ?thesis using assms True
    by (auto simp: fragment_sizes_eq split: if_splits)
next
  case False
  then show ?thesis using assms small_div(2)[of b f]
    by (auto simp: fragment_sizes_eq split: if_splits)
qed


lemma fragment_burst_Inr:
  assumes "fragment_burst b f = Inr (p, frags)" "fragment_sizes b f = (n, s, l)"
  shows "24 \<le> b" "24 \<le> f" "s = 0 \<or> 24 \<le> s" "l = 0 \<or> 24 \<le> l"
    "frags = replicate (nat n) (f - 24) @ (if s \<noteq> 0 then [s - 24] else [])
               @ (if l \<noteq> 0 then [l - 24] else [])"
    "p = b - 24 * int (length frags)"
  using assms
  by (auto simp: fragment_burst_def SEQTS_SIZE_FRAG_HEADER_LEN_def Let_def split: if_splits)

lemma reserved_bounds:
  assumes "24 \<le> (f::int)" "0 < b div f"
  shows "f \<le> b"
proof -
  have "b = (b div f) * f + b mod f" by simp
  moreover have "0 \<le> b mod f" using assms by simp
  moreover have "1 * f \<le> (b div f) * f"
    using assms by (intro mult_right_mono) auto
  ultimately show ?thesis by linarith
qed

subsection \<open>Conservation\<close>

text \<open>
  Claim C1. For every burst size and fragment size of at least 24 on which
  \<open>fragment_burst\<close> returns, the payload lengths of the returned fragments plus 24 bytes
  of header for each of them add up to the burst size, and the returned burst payload
  is the sum of the payload lengths.
\<close>

theorem fragment_burst_conservation:
  assumes "24 \<le> burst_size" "24 \<le> fragment_size"
    and "fragment_burst burst_size fragment_size = Inr (burst_payload, fragments)"
  shows "sum_list fragments + 24 * int (length fragments) = burst_size
         \<and> burst_payload = sum_list fragments"
proof -
  obtain n s l where sz: "fragment_sizes burst_size fragment_size = (n, s, l)"
    by (cases "fragment_sizes burst_size fragment_size") auto
  note r = fragment_burst_Inr [OF assms(3) sz]
  have n: "0 \<le> n" using sizes_nonneg [OF assms(1,2) sz] .
  have tot: "n * fragment_size + s + l = burst_size" using sizes_total [OF sz] .
  have "sum_list fragments + 24 * int (length fragments) = n * fragment_size + s + l"
    using n by (simp add: r(5) sum_list_replicate algebra_simps)
  then have c: "sum_list fragments + 24 * int (length fragments) = burst_size"
    using tot by simp
  moreover have "burst_payload = sum_list fragments" using c r(6) by simp
  ultimately show ?thesis by simp
qed

theorem fragment_burst_conservation_witness:
  "(24::int) \<le> 2500 \<and> (24::int) \<le> 1200
   \<and> fragment_burst 2500 1200 = Inr (2428, [1176, 1176, 76])
   \<and> sum_list [1176, 1176, 76 :: int] + 24 * int (length [1176, 1176, 76 :: int]) = 2500
   \<and> (2428 :: int) = sum_list [1176, 1176, 76]"
proof -
  have ev: "fragment_burst 2500 1200 = Inr (2428, [1176, 1176, 76])"
    by (simp add: fragment_burst_def fragment_sizes_def SEQTS_SIZE_FRAG_HEADER_LEN_def Let_def)
  have h1: "(24::int) \<le> 2500" and h2: "(24::int) \<le> 1200" by simp_all
  show ?thesis using h1 h2 ev fragment_burst_conservation [OF h1 h2 ev] by blast
qed

subsection \<open>Fragment sizes\<close>

text \<open>
  Claim C2, as stated, fails: a fragment that is not the last one can have an empty
  payload. With a fragment size of 30, a burst of 48 bytes is sent as two header-only
  fragments (the merged second-to-last fragment has exactly the size of a header);
  with a fragment size of 24 every full fragment is header-only.
\<close>

theorem zero_payload_counterexample:
  "fragment_burst 48 30 = Inr (0, [0, 0]) \<and> \<not> list_all (\<lambda>x. x \<noteq> 0) (butlast [0, 0 :: int])
   \<and> fragment_burst 72 24 = Inr (0, [0, 0, 0])
   \<and> \<not> list_all (\<lambda>x. x \<noteq> 0) (butlast [0, 0, 0 :: int])"
  by (simp add: fragment_burst_def fragment_sizes_def SEQTS_SIZE_FRAG_HEADER_LEN_def Let_def
      eval_nat_numeral)

text \<open>
  Claim C2, amended. For every burst size and fragment size of at least 24 on which
  \<open>fragment_burst\<close> returns, every returned fragment has a wire size (payload plus 24)
  of at least 24; and when the fragment size is more than 24 and the merged
  second-to-last fragment is not exactly a header (the remainder is zero, or fragment
  size plus remainder is not 48), every fragment but the last has a payload of at least
  one byte.
\<close>

theorem no_undersized_fragment:
  assumes "24 \<le> burst_size" "24 \<le> fragment_size"
    and "fragment_burst burst_size fragment_size = Inr (burst_payload, fragments)"
  shows "(\<forall>x \<in> set fragments. 24 \<le> x + 24)
         \<and> (24 < fragment_size
              \<and> \<not> (0 < burst_size mod fragment_size
                     \<and> fragment_size + burst_size mod fragment_size = 48)
             \<longrightarrow> (\<forall>x \<in> set (butlast fragments). 0 < x))"
proof -
  obtain n s l where sz: "fragment_sizes burst_size fragment_size = (n, s, l)"
    by (cases "fragment_sizes burst_size fragment_size") auto
  note r = fragment_burst_Inr [OF assms(3) sz]
  have wire: "\<forall>x \<in> set fragments. 24 \<le> x + 24"
    using r(3,4) assms(2) by (auto simp: r(5))
  have pos: "\<forall>x \<in> set (butlast fragments). 0 < x"
    if f: "24 < fragment_size"
      and m: "\<not> (0 < burst_size mod fragment_size
                 \<and> fragment_size + burst_size mod fragment_size = 48)"
  proof -
    have s: "s = 0 \<or> l = 0 \<or> 24 < s"
      using sz r(3) f m by (auto simp: fragment_sizes_eq split: if_splits)
    have full: "0 < x" if "x \<in> set (replicate (nat n) (fragment_size - 24))" for x
      using that f by auto
    have full': "0 < x"
      if "x \<in> set (butlast (replicate (nat n) (fragment_size - 24)))" for x
      using full in_set_butlastD [OF that] by blast
    show ?thesis
    proof (cases "s = 0")
      case True
      then show ?thesis using full full' by (cases "l = 0") (auto simp: r(5))
    next
      case False
      then have s24: "24 \<le> s" using r(3) by simp
      show ?thesis
      proof (cases "l = 0")
        case True
        then show ?thesis using full False by (auto simp: r(5))
      next
        case l: False
        then have "24 < s" using s False by simp
        then show ?thesis using full False l by (auto simp: r(5) butlast_append)
      qed
    qed
  qed
  show ?thesis using wire pos by blast
qed

theorem no_undersized_fragment_witness:
  "(24::int) \<le> 2500 \<and> (24::int) \<le> 1200
   \<and> fragment_burst 2500 1200 = Inr (2428, [1176, 1176, 76])
   \<and> list_all (\<lambda>x. 24 \<le> x + 24) [1176, 1176, 76 :: int]
   \<and> list_all (\<lambda>x. 0 < x) (butlast [1176, 1176, 76 :: int])"
proof -
  have ev: "fragment_burst 2500 1200 = Inr (2428, [1176, 1176, 76])"
    by (simp add: fragment_burst_def fragment_sizes_def SEQTS_SIZE_FRAG_HEADER_LEN_def Let_def)
  have h1: "(24::int) \<le> 2500" and h2: "(24::int) \<le> 1200" by simp_all
  have c: "\<not> (0 < (2500::int) mod 1200 \<and> (1200::int) + 2500 mod 1200 = 48)" by simp
  note t = no_undersized_fragment [OF h1 h2 ev]
  have a: "list_all (\<lambda>x. 24 \<le> x + 24) [1176, 1176, 76 :: int]"
    using t by (simp only: list_all_iff) blast
  have b: "list_all (\<lambda>x. 0 < x) (butlast [1176, 1176, 76 :: int])"
    using t c by (simp only: list_all_iff) simp
  show ?thesis using h1 h2 ev a b by blast
qed

subsection \<open>The merge of an undersized remainder\<close>

text \<open>
  Claim C3. Whenever a full fragment has been reserved as second-to-last (the quotient
  of burst size by fragment size is positive) and the remainder is strictly between 0
  and 24, the second-to-last size becomes fragment size plus remainder minus 24 and the
  last size becomes 24; \<open>fragment_burst\<close> then raises when that second-to-last size is
  below 24 and otherwise returns the full fragments followed by the merged fragment and
  a final fragment of payload 0. In particular \<open>fragment_burst(1210, 1200)\<close> returns the
  payload list \<open>[1162, 0]\<close>.
\<close>

theorem merge_rule:
  assumes "24 \<le> fragment_size" "0 < burst_size div fragment_size"
    and "0 < burst_size mod fragment_size" "burst_size mod fragment_size < 24"
  shows "fragment_sizes burst_size fragment_size =
           (burst_size div fragment_size - 1,
            fragment_size + burst_size mod fragment_size - 24, 24)
         \<and> fragment_burst burst_size fragment_size =
           (if fragment_size + burst_size mod fragment_size - 24 < 24
            then Inl SecondToLastTooSmall
            else Inr (burst_size - 24 * (burst_size div fragment_size + 1),
                      replicate (nat (burst_size div fragment_size - 1)) (fragment_size - 24)
                        @ [fragment_size + burst_size mod fragment_size - 24 - 24, 0]))
         \<and> fragment_burst 1210 1200 = Inr (1162, [1162, 0])"
proof -
  have b: "24 \<le> burst_size" using reserved_bounds [OF assms(1,2)] assms(1) by simp
  have sz: "fragment_sizes burst_size fragment_size =
           (burst_size div fragment_size - 1,
            fragment_size + burst_size mod fragment_size - 24, 24)"
    using assms by (simp add: fragment_sizes_eq)
  have fb: "fragment_burst burst_size fragment_size =
           (if fragment_size + burst_size mod fragment_size - 24 < 24
            then Inl SecondToLastTooSmall
            else Inr (burst_size - 24 * (burst_size div fragment_size + 1),
                      replicate (nat (burst_size div fragment_size - 1)) (fragment_size - 24)
                        @ [fragment_size + burst_size mod fragment_size - 24 - 24, 0]))"
    using assms b
    by (simp add: fragment_burst_def sz SEQTS_SIZE_FRAG_HEADER_LEN_def Let_def)
  have ex: "fragment_burst 1210 1200 = Inr (1162, [1162, 0])"
    by (simp add: fragment_burst_def fragment_sizes_def SEQTS_SIZE_FRAG_HEADER_LEN_def Let_def)
  show ?thesis using sz fb ex by blast
qed

theorem merge_rule_witness:
  "(24::int) \<le> 1200 \<and> (0::int) < 1210 div 1200 \<and> (0::int) < 1210 mod 1200
   \<and> (1210::int) mod 1200 < 24
   \<and> fragment_sizes 1210 1200 = (0, 1186, 24)
   \<and> fragment_burst 1210 1200 = Inr (1162, [1162, 0])"
  using merge_rule [of 1200 1210] by simp

subsection \<open>The check of the last fragment\<close>

text \<open>
  Claim C9. For every burst size and fragment size of at least 24, \<open>fragment_burst\<close>
  never raises "Last fragment would be too small": the only exception it can raise is
  "Second-to-last fragment would be too small".
\<close>

theorem last_fragment_error_unreachable:
  assumes "24 \<le> burst_size" "24 \<le> fragment_size"
  shows "fragment_burst burst_size fragment_size \<noteq> Inl LastTooSmall
         \<and> (\<forall>e. fragment_burst burst_size fragment_size = Inl e \<longrightarrow> e = SecondToLastTooSmall)"
proof -
  obtain n s l where sz: "fragment_sizes burst_size fragment_size = (n, s, l)"
    by (cases "fragment_sizes burst_size fragment_size") auto
  have "l = 0 \<or> 24 \<le> l" using sizes_last [OF assms sz] .
  then show ?thesis using assms sz
    by (auto simp: fragment_burst_def SEQTS_SIZE_FRAG_HEADER_LEN_def Let_def split: if_splits)
qed

theorem last_fragment_error_unreachable_witness:
  "(24::int) \<le> 34 \<and> (24::int) \<le> 24
   \<and> fragment_burst 34 24 = Inl SecondToLastTooSmall
   \<and> fragment_burst 34 24 \<noteq> Inl LastTooSmall"
proof -
  have ev: "fragment_burst 34 24 = Inl SecondToLastTooSmall"
    by (simp add: fragment_burst_def fragment_sizes_def SEQTS_SIZE_FRAG_HEADER_LEN_def Let_def)
  show ?thesis using ev last_fragment_error_unreachable [of 34 24] by simp
qed

section \<open>Properties of the header encoding\<close>

lemma length_be_bytes: "length (be_bytes n v) = n"
  by (induction n arbitrary: v) auto

lemma be_value_snoc: "be_value (bs @ [b]) = 256 * be_value bs + uint b"
  by (simp add: be_value_def)

lemma uint_byte: "0 \<le> r \<Longrightarrow> r < 256 \<Longrightarrow> uint (word_of_int r :: byte) = r"
  by (simp add: uint_word_of_int take_bit_eq_mod)

lemma be_value_be_bytes:
  "0 \<le> v \<Longrightarrow> v < 256 ^ n \<Longrightarrow> be_value (be_bytes n v) = v"
proof (induction n arbitrary: v)
  case 0
  then show ?case by (simp add: be_value_def)
next
  case (Suc n)
  have d0: "0 \<le> v div 256" using Suc.prems by simp
  have "256 * (v div 256) \<le> v"
    using Suc.prems by (simp add: mult.commute)
  moreover have "v < 256 * 256 ^ n" using Suc.prems by simp
  ultimately have d1: "v div 256 < 256 ^ n" by linarith
  have m: "uint (word_of_int (v mod 256) :: byte) = v mod 256"
    by (rule uint_byte) simp_all
  show ?case
    using Suc.IH [OF d0 d1] m by (simp add: be_value_snoc)
qed


lemma build_header_eq:
  assumes "0 \<le> frag_seq" "frag_seq < 2 ^ 16" "0 \<le> total_frags" "total_frags < 2 ^ 16"
    and "0 \<le> burst_payload" "burst_payload < 2 ^ 64" "0 \<le> burst_seq" "burst_seq < 2 ^ 32"
    and "0 \<le> time_ns" "time_ns < 2 ^ 64"
  shows "build_header frag_seq total_frags burst_payload burst_seq time_ns =
           Inr (be_bytes 2 frag_seq @ be_bytes 2 total_frags @ be_bytes 8 burst_payload
                  @ be_bytes 4 burst_seq @ be_bytes 8 time_ns, time_ns)"
proof -
  have 1: "pack_field Fmt_H frag_seq = Inr (be_bytes 2 frag_seq)"
    using assms by (simp add: pack_field_def)
  have 2: "pack_field Fmt_H total_frags = Inr (be_bytes 2 total_frags)"
    using assms by (simp add: pack_field_def)
  have 3: "pack_field Fmt_Q burst_payload = Inr (be_bytes 8 burst_payload)"
    using assms by (simp add: pack_field_def)
  have 4: "pack_field Fmt_I burst_seq = Inr (be_bytes 4 burst_seq)"
    using assms by (simp add: pack_field_def)
  have 5: "pack_field Fmt_Q time_ns = Inr (be_bytes 8 time_ns)"
    using assms by (simp add: pack_field_def)
  show ?thesis
    unfolding build_header_def HEADER_STRUCT_def Let_def
    by (simp only: struct_pack.simps 1 2 3 4 5 sum.case append_Nil2 append_assoc)
qed

text \<open>
  Claim C8. For field values in range (\<open>frag_seq\<close> and \<open>total_frags\<close> below \<open>2^16\<close>,
  \<open>burst_payload\<close> and the timestamp below \<open>2^64\<close>, \<open>burst_seq\<close> below \<open>2^32\<close>, none
  negative), \<open>build_header\<close> returns a buffer of exactly 24 bytes in which the bytes
  0 to 1 read big-endian give \<open>frag_seq\<close>, the bytes 2 to 3 \<open>total_frags\<close>, the bytes 4
  to 11 \<open>burst_payload\<close>, the bytes 12 to 15 \<open>burst_seq\<close> and the bytes 16 to 23 the
  timestamp.
\<close>

theorem header_wire_format:
  assumes "0 \<le> frag_seq" "frag_seq < 2 ^ 16" "0 \<le> total_frags" "total_frags < 2 ^ 16"
    and "0 \<le> burst_payload" "burst_payload < 2 ^ 64" "0 \<le> burst_seq" "burst_seq < 2 ^ 32"
    and "0 \<le> time_ns" "time_ns < 2 ^ 64"
  shows "\<exists>header. build_header frag_seq total_frags burst_payload burst_seq time_ns
                     = Inr (header, time_ns)
           \<and> length header = 24
           \<and> be_value (field_at 0 2 header) = frag_seq
           \<and> be_value (field_at 2 2 header) = total_frags
           \<and> be_value (field_at 4 8 header) = burst_payload
           \<and> be_value (field_at 12 4 header) = burst_seq
           \<and> be_value (field_at 16 8 header) = time_ns"
proof -
  let ?h = "be_bytes 2 frag_seq @ be_bytes 2 total_frags @ be_bytes 8 burst_payload
              @ be_bytes 4 burst_seq @ be_bytes 8 time_ns"
  have e: "build_header frag_seq total_frags burst_payload burst_seq time_ns = Inr (?h, time_ns)"
    by (rule build_header_eq [OF assms])
  have l: "length ?h = 24" by (simp add: length_be_bytes)
  have f0: "field_at 0 2 ?h = be_bytes 2 frag_seq"
    by (simp add: field_at_def length_be_bytes)
  have f1: "field_at 2 2 ?h = be_bytes 2 total_frags"
    by (simp add: field_at_def length_be_bytes)
  have f2: "field_at 4 8 ?h = be_bytes 8 burst_payload"
    by (simp add: field_at_def length_be_bytes)
  have f3: "field_at 12 4 ?h = be_bytes 4 burst_seq"
    by (simp add: field_at_def length_be_bytes)
  have f4: "field_at 16 8 ?h = be_bytes 8 time_ns"
    by (simp add: field_at_def length_be_bytes)
  have v0: "be_value (be_bytes 2 frag_seq) = frag_seq"
    using assms by (intro be_value_be_bytes) simp_all
  have v1: "be_value (be_bytes 2 total_frags) = total_frags"
    using assms by (intro be_value_be_bytes) simp_all
  have v2: "be_value (be_bytes 8 burst_payload) = burst_payload"
    using assms by (intro be_value_be_bytes) simp_all
  have v3: "be_value (be_bytes 4 burst_seq) = burst_seq"
    using assms by (intro be_value_be_bytes) simp_all
  have v4: "be_value (be_bytes 8 time_ns) = time_ns"
    using assms by (intro be_value_be_bytes) simp_all
  show ?thesis
    using e l by (intro exI [of _ ?h]) (simp only: f0 f1 f2 f3 f4 v0 v1 v2 v3 v4 simp_thms)
qed


theorem header_wire_format_witness:
  "(0::int) \<le> 1 \<and> (1::int) < 2 ^ 16 \<and> (0::int) \<le> 2 \<and> (2::int) < 2 ^ 16
   \<and> (0::int) \<le> 1162 \<and> (1162::int) < 2 ^ 64 \<and> (0::int) \<le> 7 \<and> (7::int) < 2 ^ 32
   \<and> (0::int) \<le> 1000 \<and> (1000::int) < 2 ^ 64
   \<and> build_header 1 2 1162 7 1000 =
         Inr ([0, 1, 0, 2, 0, 0, 0, 0, 0, 0, 4, 138, 0, 0, 0, 7, 0, 0, 0, 0, 0, 0, 3, 232], 1000)
   \<and> be_value (field_at 4 8
         [0, 1, 0, 2, 0, 0, 0, 0, 0, 0, 4, 138, 0, 0, 0, 7, 0, 0, 0, 0, 0, 0, 3, 232]) = 1162"
proof -
  let ?bytes = "[0, 1, 0, 2, 0, 0, 0, 0, 0, 0, 4, 138, 0, 0, 0, 7, 0, 0, 0, 0, 0, 0, 3, 232]
                :: byte list"
  have ev: "build_header 1 2 1162 7 1000 = Inr (?bytes, 1000)"
    by (simp add: build_header_def HEADER_STRUCT_def pack_field_def eval_nat_numeral)
  have r: "(0::int) \<le> 1" "(1::int) < 2 ^ 16" "(0::int) \<le> 2" "(2::int) < 2 ^ 16"
    "(0::int) \<le> 1162" "(1162::int) < 2 ^ 64" "(0::int) \<le> 7" "(7::int) < 2 ^ 32"
    "(0::int) \<le> 1000" "(1000::int) < 2 ^ 64"
    by simp_all
  obtain header where h: "build_header 1 2 1162 7 1000 = Inr (header, 1000)"
    and p: "be_value (field_at 4 8 header) = 1162"
    using header_wire_format [OF r] by blast
  have "header = ?bytes" using h ev by simp
  then have "be_value (field_at 4 8 ?bytes) = 1162" using p by simp
  then show ?thesis using r ev by blast
qed

section \<open>Properties of the VR traffic model\<close>

subsection \<open>The rejection sampler\<close>

lemma sample_accepts:
  "sample self us = Some (Inr (x, us')) \<Longrightarrow> \<bar>x - location self\<bar> \<le> bound self"
proof (induction us)
  case Nil
  then show ?case by simp
next
  case (Cons u us)
  show ?case
  proof (cases "u = 0 \<or> u = 1")
    case True
    then show ?thesis using Cons by simp
  next
    case False
    then show ?thesis using Cons
      by (auto simp: Let_def split: sum.splits if_splits)
  qed
qed

lemma sample_half:
  assumes "0 \<le> bound self"
  shows "sample self (1 / 2 # us) = Some (Inr (location self, us))"
  using assms by (simp add: math_log_def)

text \<open>
  Claim C6. For every location, scale and bound, every value that
  \<open>LogisticRandomVariable.sample\<close> returns is within \<open>bound\<close> of \<open>location\<close>, whatever
  the random draws are.
\<close>

theorem bounded_sampling:
  assumes "sample self us = Some (Inr (x, us'))"
  shows "\<bar>x - location self\<bar> \<le> bound self"
  using assms by (rule sample_accepts)

theorem bounded_sampling_witness:
  "sample \<lparr>location = 10, scale = 2, bound = 5\<rparr> [0, 1 / 2, 1 / 4] = Some (Inr (10, [1 / 4]))
   \<and> \<bar>10 - location \<lparr>location = 10, scale = 2, bound = 5\<rparr>\<bar>
       \<le> bound \<lparr>location = 10, scale = 2, bound = 5\<rparr>"
proof -
  have ev: "sample \<lparr>location = 10, scale = 2, bound = 5\<rparr> [0, 1 / 2, 1 / 4]
              = Some (Inr (10, [1 / 4]))"
    by (simp add: math_log_def)
  show ?thesis using ev bounded_sampling [OF ev] by blast
qed

subsection \<open>The coefficient table and the constructor\<close>

lemma VR_MODELS_defined:
  "\<exists>c. VR_MODELS a = Some c \<and> gamma c \<noteq> None \<and> delta c \<noteq> None \<and> epsilon c \<noteq> None"
  by (cases a) (simp_all add: VR_MODELS_def del: not_None_eq)

lemma VR_MODELS_total:
  "\<exists>c g d e. VR_MODELS a = Some c \<and> gamma c = Some g \<and> delta c = Some d \<and> epsilon c = Some e"
  using VR_MODELS_defined [of a] by auto

lemma setup_model_no_missing:
  "setup_model self \<noteq> Inl MissingGamma \<and> setup_model self \<noteq> Inl MissingDeltaEpsilon"
proof -
  obtain c g d e where c: "VR_MODELS (app self) = Some c" "gamma c = Some g"
      "delta c = Some d" "epsilon c = Some e"
    using VR_MODELS_total by blast
  show ?thesis
    by (auto simp: setup_model_def c Let_def math_pow_def split: sum.splits if_splits)
qed

lemma init_succeeds:
  assumes "fr \<in> {30, 60}" "0 < rate" "0 < double_div rate 1000000"
  shows "\<exists>c g d e. VR_MODELS a = Some c \<and> gamma c = Some g \<and> delta c = Some d
           \<and> epsilon c = Some e
           \<and> VrBurstGenerator_init a fr rate =
               Inr \<lparr>app = a, frame_rate = fr, target_rate_bps = rate,
                    frame_rv = Some \<lparr>location = rate / 8 / fr,
                      scale = rate / 8 / fr * (alpha c * double_div rate 1000000 powr beta c),
                      bound = rate / 8 / fr\<rparr>,
                    period_rv = Some \<lparr>location = 1 / fr,
                      scale = 1 / fr
                        * (if fr = 60 then g else d * double_div rate 1000000 powr e),
                      bound = 1 / fr\<rparr>\<rparr>"
proof -
  obtain c g d e where c: "VR_MODELS a = Some c" "gamma c = Some g"
      "delta c = Some d" "epsilon c = Some e"
    using VR_MODELS_total by blast
  have p: "math_pow (double_div rate 1000000) y = Inr (double_div rate 1000000 powr y)" for y
    using assms(3) by (simp add: math_pow_def)
  have "VrBurstGenerator_init a fr rate =
               Inr \<lparr>app = a, frame_rate = fr, target_rate_bps = rate,
                    frame_rv = Some \<lparr>location = rate / 8 / fr,
                      scale = rate / 8 / fr * (alpha c * double_div rate 1000000 powr beta c),
                      bound = rate / 8 / fr\<rparr>,
                    period_rv = Some \<lparr>location = 1 / fr,
                      scale = 1 / fr
                        * (if fr = 60 then g else d * double_div rate 1000000 powr e),
                      bound = 1 / fr\<rparr>\<rparr>"
    using assms(1) assms(2)
    by (auto simp: VrBurstGenerator_init_def setup_model_def c p Let_def
        LogisticRandomVariable_init_def)
  then show ?thesis using c by blast
qed

lemma init_no_missing:
  "VrBurstGenerator_init a fr rate \<noteq> Inl MissingGamma
   \<and> VrBurstGenerator_init a fr rate \<noteq> Inl MissingDeltaEpsilon"
  using setup_model_no_missing by (simp add: VrBurstGenerator_init_def)

lemma init_underflow:
  "VrBurstGenerator_init VirusPopper 60 (2 powi (- 1074)) = Inl MathDomainError"
proof -
  define r :: real where "r = 2 powi (- 1074)"
  have r: "\<not> r \<le> 0" unfolding r_def by (simp add: not_le)
  have d: "double_div r 1000000 = 0" unfolding r_def by (rule double_div_underflow)
  have "VrBurstGenerator_init VirusPopper 60 r = Inl MathDomainError"
    unfolding VrBurstGenerator_init_def setup_model_def
    by (simp add: r d VR_MODELS_def math_pow_def Let_def)
  then show ?thesis unfolding r_def .
qed

lemma generate_burst_floor:
  assumes "generate_burst self us = Some (Inr ((n, x), us'))"
  shows "24 \<le> n \<and> 0 \<le> x"
  using assms
  by (auto simp: generate_burst_def Let_def split: option.splits sum.splits prod.splits)


lemma generate_burst_half:
  assumes "frame_rv self = Some frv" "period_rv self = Some prv"
    and "0 \<le> bound frv" "0 \<le> bound prv"
  shows "generate_burst self (1 / 2 # 1 / 2 # us) =
           Some (Inr ((max (int_of_float (location frv)) 24, max (location prv) 0), us))"
proof -
  have 1: "sample_int frv (1 / 2 # 1 / 2 # us)
             = Some (Inr (int_of_float (location frv), 1 / 2 # us))"
    unfolding sample_int_def sample_half [OF assms(3)] by simp
  have 2: "sample prv (1 / 2 # us) = Some (Inr (location prv, us))"
    by (rule sample_half [OF assms(4)])
  show ?thesis
    unfolding generate_burst_def assms(1,2) by (simp add: 1 2 del: sample.simps)
qed

text \<open>
  Claim C5. For every application profile, frame rate 30 or 60 and positive target
  rate, every pair \<open>(size, interval)\<close> that \<open>generate_burst\<close> of the constructed
  generator returns has a size of at least 24 and an interval of at least 0; the
  generator is constructed whenever the rate in Mbit/s is not rounded to zero.
\<close>

theorem model_floor:
  assumes "fr \<in> {30, 60}" "0 < rate"
  shows "(0 < double_div rate 1000000 \<longrightarrow> (\<exists>self. VrBurstGenerator_init a fr rate = Inr self))
         \<and> (\<forall>self. VrBurstGenerator_init a fr rate = Inr self
               \<longrightarrow> (\<forall>us n x us'. generate_burst self us = Some (Inr ((n, x), us'))
                      \<longrightarrow> 24 \<le> n \<and> 0 \<le> x))"
  using init_succeeds [OF assms, of a] generate_burst_floor by blast

theorem model_floor_witness:
  "(60::real) \<in> {30, 60} \<and> (0::real) < 20000000
   \<and> (\<exists>self. VrBurstGenerator_init VirusPopper 60 20000000 = Inr self
         \<and> generate_burst self [1 / 2, 1 / 2] = Some (Inr ((41666, 1 / 60), []))
         \<and> (24::int) \<le> 41666 \<and> (0::real) \<le> 1 / 60)"
proof -
  have h1: "(60::real) \<in> {30, 60}" and h2: "(0::real) < 20000000" by simp_all
  have h3: "0 < double_div 20000000 1000000" by (simp add: double_div_20)
  note t = model_floor [OF h1 h2, of VirusPopper]
  obtain self where i: "VrBurstGenerator_init VirusPopper 60 20000000 = Inr self"
    using t h3 by blast
  have p: "\<forall>us n x us'. generate_burst self us = Some (Inr ((n, x), us'))
              \<longrightarrow> 24 \<le> n \<and> 0 \<le> x"
    using t i by blast
  obtain frv prv where f: "frame_rv self = Some frv" "location frv = 20000000 / 8 / 60"
      "bound frv = 20000000 / 8 / 60"
    and q: "period_rv self = Some prv" "location prv = 1 / 60" "bound prv = 1 / 60"
    using init_succeeds [OF h1 h2 h3, of VirusPopper] i by auto
  have fl: "int_of_float (20000000 / 8 / 60) = 41666"
    by (simp add: int_of_float_def)
  have g: "generate_burst self [1 / 2, 1 / 2] = Some (Inr ((41666, 1 / 60), []))"
    using generate_burst_half [OF f(1) q(1), of "[]"] f(2,3) q(2,3) fl by simp
  have "(24::int) \<le> 41666 \<and> (0::real) \<le> 1 / 60" using p g by blast
  then show ?thesis using h1 h2 i g by blast
qed

text \<open>
  Claim C10, as stated, fails: the constructor does not succeed for every positive
  target rate. For the smallest positive double, \<open>2^-1074\<close> (about \<open>5e-324\<close>), the rate
  in Mbit/s is rounded to \<open>0.0\<close> and \<open>math.pow\<close> raises a domain error.
\<close>

theorem tiny_rate_counterexample:
  "(60::real) \<in> {30, 60} \<and> (0::real) < 2 powi (- 1074)
   \<and> VrBurstGenerator_init VirusPopper 60 (2 powi (- 1074)) = Inl MathDomainError"
proof -
  have a: "(60::real) \<in> {30, 60}" and b: "(0::real) < 2 powi (- 1074)" by simp_all
  show ?thesis using a b init_underflow by blast
qed

text \<open>
  Claim C10, amended. Each of the four profiles of \<open>_VR_MODELS\<close> defines \<open>gamma\<close>,
  \<open>delta\<close> and \<open>epsilon\<close> (\<open>alpha\<close> and \<open>beta\<close> are mandatory fields), so neither
  \<open>_setup_model\<close> nor the constructor ever raises for a missing gamma or a missing delta
  or epsilon; and for every application name and frame rate 30 or 60 the construction
  succeeds for every positive target rate whose quotient by \<open>1e6\<close> is not rounded to
  zero, in particular for every rate of at least \<open>2^-1054\<close> (about \<open>5.1e-318\<close>).
\<close>

theorem coefficients_defined:
  "(\<exists>c g d e. VR_MODELS a = Some c \<and> gamma c = Some g \<and> delta c = Some d
       \<and> epsilon c = Some e)
   \<and> (\<forall>self. setup_model self \<noteq> Inl MissingGamma
          \<and> setup_model self \<noteq> Inl MissingDeltaEpsilon)
   \<and> VrBurstGenerator_init a fr rate \<noteq> Inl MissingGamma
   \<and> VrBurstGenerator_init a fr rate \<noteq> Inl MissingDeltaEpsilon
   \<and> (fr \<in> {30, 60} \<and> 0 < rate \<and> 0 < double_div rate 1000000
        \<longrightarrow> (\<exists>self. VrBurstGenerator_init a fr rate = Inr self))
   \<and> (fr \<in> {30, 60} \<and> 2 powi (- 1054) \<le> rate
        \<longrightarrow> (\<exists>self. VrBurstGenerator_init a fr rate = Inr self))"
proof -
  have s: "\<exists>self. VrBurstGenerator_init a fr rate = Inr self"
    if "fr \<in> {30, 60} \<and> 0 < rate \<and> 0 < double_div rate 1000000"
    using that init_succeeds [of fr rate a] by blast
  have s': "\<exists>self. VrBurstGenerator_init a fr rate = Inr self"
    if h: "fr \<in> {30, 60} \<and> 2 powi (- 1054) \<le> rate"
  proof -
    have "(0::real) < 2 powi (- 1054)" by simp
    then have "0 < rate" using h by linarith
    then show ?thesis using h s double_div_pos by blast
  qed
  show ?thesis
    using VR_MODELS_total [of a] setup_model_no_missing init_no_missing [of a fr rate] s s'
    by blast
qed

theorem coefficients_defined_witness:
  "(30::real) \<in> {30, 60} \<and> (2::real) powi (- 1054) \<le> 5000000
   \<and> (\<exists>self. VrBurstGenerator_init Minecraft 30 5000000 = Inr self)
   \<and> VrBurstGenerator_init Minecraft 30 5000000 \<noteq> Inl MissingDeltaEpsilon
   \<and> VrBurstGenerator_init Minecraft 60 5000000 \<noteq> Inl MissingGamma"
proof -
  have h1: "(30::real) \<in> {30, 60}" by simp
  have h2: "(2::real) powi (- 1054) \<le> 5000000"
    by (simp add: power_int_minus field_simps)
  show ?thesis
    using h1 h2 coefficients_defined [of Minecraft 30 5000000]
      coefficients_defined [of Minecraft 60 5000000] by blast
qed

section \<open>Properties of the trace replay\<close>

subsection \<open>The loop over the rows\<close>

lemma retained_from_eq:
  "retained_from start c rs =
     map (\<lambda>i. rs ! i)
       (filter (\<lambda>i. float_ge (foldl float_add c (map snd (take i rs))) start) [0..<length rs])"
proof (induction rs arbitrary: c)
  case Nil
  then show ?case by simp
next
  case (Cons r rs)
  have u: "[0..<length (r # rs)] = 0 # map Suc [0..<length rs]"
    by (simp add: upt_conv_Cons map_Suc_upt del: upt_Suc)
  show ?case
    unfolding u
    by (simp add: Cons.IH [of "float_add c (snd r)"] filter_map o_def)
qed

lemma retained_rows_from: "retained_rows start rs = retained_from start (Finite 0) rs"
  by (simp add: retained_rows_def cumulative_start_of_def float_sum_def retained_from_eq)

lemma data_rows_Cons:
  "data_rows py_int py_float (row # rows) =
     (case read_row py_int py_float row of Data b p \<Rightarrow> [(b, p)] | _ \<Rightarrow> [])
       @ data_rows py_int py_float rows"
  by (simp add: data_rows_def)

lemma load_rows_ok:
  assumes "\<forall>row \<in> set rows. \<not> malformed py_int py_float row"
  shows "load_rows py_int py_float n rows c self =
           Inr (self\<lparr>bursts := bursts self
                        @ retained_from (start_time self) c (data_rows py_int py_float rows),
                     trace_duration := foldl float_add (trace_duration self)
                        (map snd (retained_from (start_time self) c
                                    (data_rows py_int py_float rows)))\<rparr>)"
  using assms
proof (induction rows arbitrary: n c self)
  case Nil
  then show ?case by (simp add: data_rows_def)
next
  case (Cons row rows)
  have rest: "\<forall>row \<in> set rows. \<not> malformed py_int py_float row" using Cons.prems by simp
  have hd: "\<not> malformed py_int py_float row" using Cons.prems by simp
  note IH = Cons.IH [OF rest]
  show ?case
  proof (cases "read_row py_int py_float row")
    case Skip
    then show ?thesis by (simp add: IH data_rows_Cons)
  next
    case Invalid
    then show ?thesis using hd by (simp add: malformed_def)
  next
    case (Data b p)
    then have p: "\<not> float_lt p (Finite 0)" using hd by (simp add: malformed_def)
    show ?thesis using Data p by (simp add: IH data_rows_Cons)
  qed
qed

lemma load_rows_error:
  assumes "i < length rows" "malformed py_int py_float (rows ! i)"
    and "\<forall>k < i. \<not> malformed py_int py_float (rows ! k)"
  shows "load_rows py_int py_float n rows c self =
           Inl (row_error py_int py_float (rows ! i) (n + i))"
  using assms
proof (induction rows arbitrary: n c self i)
  case Nil
  then show ?case by simp
next
  case (Cons row rows)
  show ?case
  proof (cases i)
    case 0
    then have "malformed py_int py_float row" using Cons.prems by simp
    then show ?thesis using 0
      by (auto simp: malformed_def row_error_def split: row_result.splits)
  next
    case (Suc j)
    have hd: "\<not> malformed py_int py_float row" using Cons.prems(3) Suc by auto
    have j: "j < length rows" "malformed py_int py_float (rows ! j)"
      "\<forall>k < j. \<not> malformed py_int py_float (rows ! k)"
      using Cons.prems Suc by auto
    note IH = Cons.IH [OF j]
    show ?thesis using hd Suc
      by (auto simp: malformed_def IH split: row_result.splits)
  qed
qed

lemma first_malformed:
  assumes "\<exists>row \<in> set rows. malformed py_int py_float row"
  shows "\<exists>i < length rows. malformed py_int py_float (rows ! i)
           \<and> (\<forall>k < i. \<not> malformed py_int py_float (rows ! k))"
proof -
  let ?P = "\<lambda>i. i < length rows \<and> malformed py_int py_float (rows ! i)"
  have "\<exists>i. ?P i" using assms by (auto simp: in_set_conv_nth)
  then have l: "?P (LEAST i. ?P i)" by (rule LeastI_ex)
  have "\<not> malformed py_int py_float (rows ! k)" if "k < (LEAST i. ?P i)" for k
  proof -
    have "\<not> ?P k" using that by (rule not_less_Least)
    moreover have "k < length rows" using that l by simp
    ultimately show ?thesis by simp
  qed
  then show ?thesis using l by blast
qed

lemma init_ok:
  assumes "\<forall>row \<in> set rows. \<not> malformed py_int py_float row"
  shows "TraceFileBurstGenerator_init py_int py_float rows st =
           (if retained_rows st (data_rows py_int py_float rows) = [] then Inl NoBursts
            else Inr \<lparr>start_time = st,
                      bursts = retained_rows st (data_rows py_int py_float rows),
                      trace_duration =
                        float_sum (map snd (retained_rows st (data_rows py_int py_float rows)))\<rparr>)"
  by (simp add: TraceFileBurstGenerator_init_def load_trace_def load_rows_ok [OF assms]
      retained_rows_from float_sum_def)

lemma init_error:
  assumes "i < length rows" "malformed py_int py_float (rows ! i)"
    and "\<forall>k < i. \<not> malformed py_int py_float (rows ! k)"
  shows "TraceFileBurstGenerator_init py_int py_float rows st =
           Inl (row_error py_int py_float (rows ! i) (Suc i))"
  by (simp add: TraceFileBurstGenerator_init_def load_trace_def load_rows_error [OF assms])

lemma init_Inr_wellformed:
  assumes "TraceFileBurstGenerator_init py_int py_float rows st = Inr self"
  shows "\<forall>row \<in> set rows. \<not> malformed py_int py_float row"
proof (rule ccontr)
  assume "\<not> ?thesis"
  then have "\<exists>row \<in> set rows. malformed py_int py_float row" by simp
  then obtain i where "i < length rows" "malformed py_int py_float (rows ! i)"
      "\<forall>k < i. \<not> malformed py_int py_float (rows ! k)"
    using first_malformed by blast
  then show False using init_error assms by fastforce
qed

subsection \<open>The doubles of the scenarios\<close>

lemma to_float_eval:
  assumes "2 powi k \<le> \<bar>x\<bar>" "\<bar>x\<bar> < 2 powi (k + 1)" "e = max (k - 52) (- 1074)"
    and "y = of_int (round_half_even (x / 2 powi e)) * 2 powi e" "\<bar>y\<bar> < 2 ^ 1024"
  shows "to_float x = Finite y"
proof -
  have "round_double x = y" using round_double_eval [OF assms(1-3)] assms(4) by simp
  then show ?thesis using assms(5) by (simp add: to_float_def Let_def abs_less_iff)
qed

lemma to_float_0: "to_float 0 = Finite 0"
  by (simp add: to_float_def round_double_def)

lemma add_0_0: "float_add (Finite 0) (Finite 0) = Finite 0"
  by (simp add: to_float_0)


lemma scenario_retained:
  "retained_rows (Finite 0) [(100, Finite 0), (5000, to_float 0.02), (300, to_float 0.01)]
     = [(100, Finite 0), (5000, to_float 0.02), (300, to_float 0.01)]"
  "float_sum (map snd [(100 :: int, Finite 0), (5000, to_float 0.02), (300, to_float 0.01)])
     = to_float 0.03"
  "retained_rows (to_float 0.015) [(100, Finite 0), (5000, to_float 0.02), (300, to_float 0.01)]
     = [(300, to_float 0.01)]"
  "float_sum (map snd [(300 :: int, to_float 0.01)]) = to_float 0.01"
proof -
  define d1 :: real where "d1 = 5764607523034235 / 2 ^ 59"
  define d2 :: real where "d2 = 5764607523034235 / 2 ^ 58"
  define d3 :: real where "d3 = 8646911284551352 / 2 ^ 58"
  define d15 :: real where "d15 = 8646911284551352 / 2 ^ 59"
  have f: "to_float 0.01 = Finite d1" "to_float 0.02 = Finite d2" "to_float 0.03 = Finite d3"
    "to_float 0.015 = Finite d15"
  proof -
    show "to_float 0.01 = Finite d1" unfolding d1_def
      by (rule to_float_eval [where k = "- 7" and e = "- 59"])
       (simp_all add: round_half_even_def power_int_minus field_simps)
    show "to_float 0.02 = Finite d2" unfolding d2_def
      by (rule to_float_eval [where k = "- 6" and e = "- 58"])
       (simp_all add: round_half_even_def power_int_minus field_simps)
    show "to_float 0.03 = Finite d3" unfolding d3_def
      by (rule to_float_eval [where k = "- 6" and e = "- 58"])
       (simp_all add: round_half_even_def power_int_minus field_simps)
    show "to_float 0.015 = Finite d15" unfolding d15_def
      by (rule to_float_eval [where k = "- 7" and e = "- 59"])
       (simp_all add: round_half_even_def power_int_minus field_simps)
  qed
  have a: "float_add (Finite 0) (Finite d1) = Finite d1"
    "float_add (Finite 0) (Finite d2) = Finite d2"
    "float_add (Finite d2) (Finite d1) = Finite d3"
  proof -
    show "float_add (Finite 0) (Finite d1) = Finite d1" unfolding d1_def float_add.simps
      by (rule to_float_eval [where k = "- 7" and e = "- 59"])
       (simp_all add: round_half_even_def power_int_minus field_simps)
    show "float_add (Finite 0) (Finite d2) = Finite d2" unfolding d2_def float_add.simps
      by (rule to_float_eval [where k = "- 6" and e = "- 58"])
       (simp_all add: round_half_even_def power_int_minus field_simps)
    show "float_add (Finite d2) (Finite d1) = Finite d3"
      unfolding d1_def d2_def d3_def float_add.simps
      by (rule to_float_eval [where k = "- 6" and e = "- 58"])
       (simp_all add: round_half_even_def power_int_minus field_simps)
  qed
  have c: "0 \<le> d2" "\<not> d15 \<le> 0" "d15 \<le> d2"
    unfolding d15_def d2_def by simp_all
  show "retained_rows (Finite 0) [(100, Finite 0), (5000, to_float 0.02), (300, to_float 0.01)]
     = [(100, Finite 0), (5000, to_float 0.02), (300, to_float 0.01)]"
    unfolding f retained_rows_from by (simp add: add_0_0 a c del: float_add.simps)
  show "float_sum (map snd [(100 :: int, Finite 0), (5000, to_float 0.02), (300, to_float 0.01)])
     = to_float 0.03"
    unfolding f float_sum_def by (simp add: add_0_0 a del: float_add.simps)
  show "retained_rows (to_float 0.015)
          [(100, Finite 0), (5000, to_float 0.02), (300, to_float 0.01)]
     = [(300, to_float 0.01)]"
    unfolding f retained_rows_from by (simp add: add_0_0 a c del: float_add.simps)
  show "float_sum (map snd [(300 :: int, to_float 0.01)]) = to_float 0.01"
    unfolding f float_sum_def by (simp add: a del: float_add.simps)
qed

lemma boundary_retained:
  "retained_rows (to_float 0.8) [(1, to_float 0.1), (2, to_float 0.7), (3, Finite 0)] = []"
proof -
  define e1 :: real where "e1 = 7205759403792794 / 2 ^ 56"
  define e7 :: real where "e7 = 6305039478318694 / 2 ^ 53"
  define e8 :: real where "e8 = 7205759403792794 / 2 ^ 53"
  define es :: real where "es = 7205759403792793 / 2 ^ 53"
  have f: "to_float 0.1 = Finite e1" "to_float 0.7 = Finite e7" "to_float 0.8 = Finite e8"
  proof -
    show "to_float 0.1 = Finite e1" unfolding e1_def
      by (rule to_float_eval [where k = "- 4" and e = "- 56"])
       (simp_all add: round_half_even_def power_int_minus field_simps)
    show "to_float 0.7 = Finite e7" unfolding e7_def
      by (rule to_float_eval [where k = "- 1" and e = "- 53"])
       (simp_all add: round_half_even_def power_int_minus field_simps)
    show "to_float 0.8 = Finite e8" unfolding e8_def
      by (rule to_float_eval [where k = "- 1" and e = "- 53"])
       (simp_all add: round_half_even_def power_int_minus field_simps)
  qed
  have a: "float_add (Finite 0) (Finite e1) = Finite e1"
    "float_add (Finite e1) (Finite e7) = Finite es"
  proof -
    show "float_add (Finite 0) (Finite e1) = Finite e1" unfolding e1_def float_add.simps
      by (rule to_float_eval [where k = "- 4" and e = "- 56"])
       (simp_all add: round_half_even_def power_int_minus field_simps)
    show "float_add (Finite e1) (Finite e7) = Finite es"
      unfolding e1_def e7_def es_def float_add.simps
      by (rule to_float_eval [where k = "- 1" and e = "- 53"])
       (simp_all add: round_half_even_def power_int_minus field_simps)
  qed
  have c: "\<not> e8 \<le> 0" "\<not> e8 \<le> e1" "\<not> e8 \<le> es"
    unfolding e1_def e8_def es_def by simp_all
  show ?thesis
    unfolding f retained_rows_from by (simp add: a c del: float_add.simps)
qed


lemma round_half_even_nonneg:
  assumes "0 \<le> y"
  shows "0 \<le> round_half_even y"
proof -
  have "0 \<le> \<lfloor>y\<rfloor>" using assms by simp
  then show ?thesis by (simp add: round_half_even_def Let_def)
qed

lemma to_float_nonneg:
  assumes "0 \<le> x"
  shows "\<not> float_lt (to_float x) (Finite 0)"
proof -
  have "0 \<le> x / 2 powi ulp_exponent x" using assms by simp
  then have "0 \<le> round_half_even (x / 2 powi ulp_exponent x)"
    by (rule round_half_even_nonneg)
  then have "0 \<le> round_double x" by (simp add: round_double_def)
  then show ?thesis by (simp add: to_float_def Let_def)
qed

subsection \<open>Start-time filtering\<close>

text \<open>
  Claim C4. A trace with no malformed row is loaded, and the retained rows are exactly
  the data rows whose cumulative start is at least \<open>start_time\<close>, in file order; the
  cumulative start of a row is the sum of the periods of the data rows before it, each
  addition rounded as the loop rounds it, and \<open>trace_duration\<close> is the sum of the
  periods of the retained rows, added in the same way (the load fails with "No bursts
  found" when no row is retained). For a trace whose data rows are \<open>(100, 0.0)\<close>,
  \<open>(5000, 0.02)\<close>, \<open>(300, 0.01)\<close>, a start time of 0 retains the three rows in order
  with a duration of 0.03, and a start time of 0.015 retains only \<open>(300, 0.01)\<close>.
\<close>

theorem start_time_filtering:
  "((\<forall>row \<in> set rows. \<not> malformed py_int py_float row)
      \<longrightarrow> TraceFileBurstGenerator_init py_int py_float rows st =
            (if retained_rows st (data_rows py_int py_float rows) = [] then Inl NoBursts
             else Inr \<lparr>start_time = st,
                       bursts = retained_rows st (data_rows py_int py_float rows),
                       trace_duration = float_sum (map snd
                         (retained_rows st (data_rows py_int py_float rows)))\<rparr>))
   \<and> (\<forall>self. TraceFileBurstGenerator_init py_int py_float rows st = Inr self
      \<longrightarrow> bursts self = retained_rows st (data_rows py_int py_float rows)
          \<and> trace_duration self = float_sum (map snd (bursts self)))
   \<and> ((\<forall>row \<in> set rows. \<not> malformed py_int py_float row)
        \<and> data_rows py_int py_float rows
            = [(100, Finite 0), (5000, to_float 0.02), (300, to_float 0.01)]
      \<longrightarrow> TraceFileBurstGenerator_init py_int py_float rows (Finite 0) =
            Inr \<lparr>start_time = Finite 0,
                 bursts = [(100, Finite 0), (5000, to_float 0.02), (300, to_float 0.01)],
                 trace_duration = to_float 0.03\<rparr>
          \<and> TraceFileBurstGenerator_init py_int py_float rows (to_float 0.015) =
            Inr \<lparr>start_time = to_float 0.015, bursts = [(300, to_float 0.01)],
                 trace_duration = to_float 0.01\<rparr>)"
proof -
  have a: "bursts self = retained_rows st (data_rows py_int py_float rows)
          \<and> trace_duration self = float_sum (map snd (bursts self))"
    if i: "TraceFileBurstGenerator_init py_int py_float rows st = Inr self" for self
  proof -
    have w: "\<forall>row \<in> set rows. \<not> malformed py_int py_float row"
      using init_Inr_wellformed [OF i] .
    show ?thesis using i unfolding init_ok [OF w] by (auto split: if_splits)
  qed
  have b: "TraceFileBurstGenerator_init py_int py_float rows (Finite 0) =
            Inr \<lparr>start_time = Finite 0,
                 bursts = [(100, Finite 0), (5000, to_float 0.02), (300, to_float 0.01)],
                 trace_duration = to_float 0.03\<rparr>
          \<and> TraceFileBurstGenerator_init py_int py_float rows (to_float 0.015) =
            Inr \<lparr>start_time = to_float 0.015, bursts = [(300, to_float 0.01)],
                 trace_duration = to_float 0.01\<rparr>"
    if w: "\<forall>row \<in> set rows. \<not> malformed py_int py_float row"
      and d: "data_rows py_int py_float rows
                = [(100, Finite 0), (5000, to_float 0.02), (300, to_float 0.01)]"
    unfolding init_ok [OF w] d scenario_retained
    by (simp only: list.distinct if_False simp_thms)
  show ?thesis using init_ok [of rows py_int py_float st] a b by blast
qed

theorem start_time_filtering_witness:
  "list_all (\<lambda>row. \<not> malformed
       (map_of [(codepoints ''100'', 100), (codepoints ''5000'', 5000), (codepoints ''300'', 300),
          (codepoints ''1'', 1), (codepoints ''2'', 2), (codepoints ''3'', 3)])
       (map_of [(codepoints ''0.0'', Finite 0), (codepoints ''0.02'', to_float 0.02),
          (codepoints ''0.01'', to_float 0.01), (codepoints ''0.1'', to_float 0.1),
          (codepoints ''0.7'', to_float 0.7)]) row)
       [[codepoints ''100'', codepoints ''0.0''], [codepoints ''# warm-up''],
        [codepoints ''5000'', codepoints '' 0.02''], [], [codepoints ''300'', codepoints ''0.01'']]
   \<and> TraceFileBurstGenerator_init
       (map_of [(codepoints ''100'', 100), (codepoints ''5000'', 5000), (codepoints ''300'', 300),
          (codepoints ''1'', 1), (codepoints ''2'', 2), (codepoints ''3'', 3)])
       (map_of [(codepoints ''0.0'', Finite 0), (codepoints ''0.02'', to_float 0.02),
          (codepoints ''0.01'', to_float 0.01), (codepoints ''0.1'', to_float 0.1),
          (codepoints ''0.7'', to_float 0.7)])
       [[codepoints ''100'', codepoints ''0.0''], [codepoints ''# warm-up''],
        [codepoints ''5000'', codepoints '' 0.02''], [], [codepoints ''300'', codepoints ''0.01'']] (Finite 0)
     = Inr \<lparr>start_time = Finite 0,
            bursts = [(100, Finite 0), (5000, to_float 0.02), (300, to_float 0.01)],
            trace_duration = to_float 0.03\<rparr>
   \<and> TraceFileBurstGenerator_init
       (map_of [(codepoints ''100'', 100), (codepoints ''5000'', 5000), (codepoints ''300'', 300),
          (codepoints ''1'', 1), (codepoints ''2'', 2), (codepoints ''3'', 3)])
       (map_of [(codepoints ''0.0'', Finite 0), (codepoints ''0.02'', to_float 0.02),
          (codepoints ''0.01'', to_float 0.01), (codepoints ''0.1'', to_float 0.1),
          (codepoints ''0.7'', to_float 0.7)])
       [[codepoints ''100'', codepoints ''0.0''], [codepoints ''# warm-up''],
        [codepoints ''5000'', codepoints '' 0.02''], [], [codepoints ''300'', codepoints ''0.01'']] (to_float 0.015)
     = Inr \<lparr>start_time = to_float 0.015, bursts = [(300, to_float 0.01)],
            trace_duration = to_float 0.01\<rparr>
   \<and> TraceFileBurstGenerator_init
       (map_of [(codepoints ''100'', 100), (codepoints ''5000'', 5000), (codepoints ''300'', 300),
          (codepoints ''1'', 1), (codepoints ''2'', 2), (codepoints ''3'', 3)])
       (map_of [(codepoints ''0.0'', Finite 0), (codepoints ''0.02'', to_float 0.02),
          (codepoints ''0.01'', to_float 0.01), (codepoints ''0.1'', to_float 0.1),
          (codepoints ''0.7'', to_float 0.7)])
       [[codepoints ''1'', codepoints ''0.1''], [codepoints ''2'', codepoints ''0.7''],
        [codepoints ''3'', codepoints ''0.0'']] (to_float 0.8)
     = Inl NoBursts"
proof -
  let ?pi = "map_of [(codepoints ''100'', 100), (codepoints ''5000'', 5000), (codepoints ''300'', 300),
          (codepoints ''1'', 1), (codepoints ''2'', 2), (codepoints ''3'', 3)]"
  let ?pf = "map_of [(codepoints ''0.0'', Finite 0), (codepoints ''0.02'', to_float 0.02),
          (codepoints ''0.01'', to_float 0.01), (codepoints ''0.1'', to_float 0.1),
          (codepoints ''0.7'', to_float 0.7)]"
  let ?rows = "[[codepoints ''100'', codepoints ''0.0''], [codepoints ''# warm-up''],
        [codepoints ''5000'', codepoints '' 0.02''], [], [codepoints ''300'', codepoints ''0.01'']]"
  let ?rowsb = "[[codepoints ''1'', codepoints ''0.1''], [codepoints ''2'', codepoints ''0.7''],
        [codepoints ''3'', codepoints ''0.0'']]"
  have r: "read_row ?pi ?pf [codepoints ''100'', codepoints ''0.0''] = Data 100 (Finite 0)"
    "read_row ?pi ?pf [codepoints ''# warm-up''] = Skip"
    "read_row ?pi ?pf [codepoints ''5000'', codepoints '' 0.02''] = Data 5000 (to_float 0.02)"
    "read_row ?pi ?pf [] = Skip"
    "read_row ?pi ?pf [codepoints ''300'', codepoints ''0.01''] = Data 300 (to_float 0.01)"
    "read_row ?pi ?pf [codepoints ''1'', codepoints ''0.1''] = Data 1 (to_float 0.1)"
    "read_row ?pi ?pf [codepoints ''2'', codepoints ''0.7''] = Data 2 (to_float 0.7)"
    "read_row ?pi ?pf [codepoints ''3'', codepoints ''0.0''] = Data 3 (Finite 0)"
    by (simp_all add: read_row_def strip_def isspace_def startswith_def codepoints_def)
  have n: "\<not> float_lt (Finite 0) (Finite 0)" "\<not> float_lt (to_float 0.02) (Finite 0)"
    "\<not> float_lt (to_float 0.01) (Finite 0)" "\<not> float_lt (to_float 0.1) (Finite 0)"
    "\<not> float_lt (to_float 0.7) (Finite 0)"
    by (simp_all add: to_float_nonneg)
  have w: "\<forall>row \<in> set ?rows. \<not> malformed ?pi ?pf row"
    unfolding malformed_def
    by (simp only: list.set ball_simps r row_result.case n simp_thms)
  have wb: "\<forall>row \<in> set ?rowsb. \<not> malformed ?pi ?pf row"
    unfolding malformed_def
    by (simp only: list.set ball_simps r row_result.case n simp_thms)
  have d: "data_rows ?pi ?pf ?rows = [(100, Finite 0), (5000, to_float 0.02), (300, to_float 0.01)]"
    unfolding data_rows_def
    by (simp only: list.map r row_result.case concat.simps append.simps)
  have db: "data_rows ?pi ?pf ?rowsb = [(1, to_float 0.1), (2, to_float 0.7), (3, Finite 0)]"
    unfolding data_rows_def
    by (simp only: list.map r row_result.case concat.simps append.simps)
  have w': "list_all (\<lambda>row. \<not> malformed ?pi ?pf row) ?rows"
    using w by (simp only: list_all_iff)
  note t = start_time_filtering [of ?rows ?pi ?pf "Finite 0", THEN conjunct2, THEN conjunct2,
      THEN mp, OF conjI [OF w d]]
  have tb: "TraceFileBurstGenerator_init ?pi ?pf ?rowsb (to_float 0.8) = Inl NoBursts"
    using start_time_filtering [of ?rowsb ?pi ?pf "to_float 0.8", THEN conjunct1, THEN mp,
        OF wb]
    unfolding db boundary_retained by (simp only: simp_thms if_True)
  show ?thesis using w' t tb by blast
qed

subsection \<open>Errors of the load\<close>

text \<open>
  Claim C7. The construction fails at the first malformed row, with an error that
  carries the number of that row: "Invalid row" when the size is not an integer, the
  period is missing or is not a number, and "Period must be non-negative" when the
  period is negative. With no malformed row it fails with "No bursts found" when no row
  is retained. A row that is empty, or whose first column is blank or starts with \<open>#\<close>
  once stripped, is skipped: it raises nothing and changes nothing.
\<close>

theorem trace_load_errors:
  "(\<forall>i. i < length rows \<and> malformed py_int py_float (rows ! i)
         \<and> (\<forall>k < i. \<not> malformed py_int py_float (rows ! k))
      \<longrightarrow> TraceFileBurstGenerator_init py_int py_float rows st =
            Inl (row_error py_int py_float (rows ! i) (Suc i)))
   \<and> ((\<exists>row \<in> set rows. malformed py_int py_float row)
      \<longrightarrow> (\<exists>i < length rows. malformed py_int py_float (rows ! i)
             \<and> TraceFileBurstGenerator_init py_int py_float rows st =
                 Inl (row_error py_int py_float (rows ! i) (Suc i))))
   \<and> (row_error py_int py_float row n = InvalidRow n
        \<or> row_error py_int py_float row n = NegativePeriod n)
   \<and> ((\<forall>row \<in> set rows. \<not> malformed py_int py_float row)
        \<and> retained_rows st (data_rows py_int py_float rows) = []
      \<longrightarrow> TraceFileBurstGenerator_init py_int py_float rows st = Inl NoBursts)
   \<and> (row = [] \<or> strip (row ! 0) = [] \<or> startswith (strip (row ! 0)) (codepoints ''#'')
      \<longrightarrow> read_row py_int py_float row = Skip
          \<and> \<not> malformed py_int py_float row
          \<and> load_rows py_int py_float n (row # rows) c self =
              load_rows py_int py_float (Suc n) rows c self)
   \<and> (row \<noteq> [] \<and> strip (row ! 0) \<noteq> []
        \<and> \<not> startswith (strip (row ! 0)) (codepoints ''#'')
      \<longrightarrow> malformed py_int py_float row =
            (py_int (strip (row ! 0)) = None \<or> length row < 2
             \<or> py_float (strip (row ! 1)) = None
             \<or> (\<exists>p. py_float (strip (row ! 1)) = Some p \<and> float_lt p (Finite 0))))"
proof -
  have a: "TraceFileBurstGenerator_init py_int py_float rows st =
            Inl (row_error py_int py_float (rows ! i) (Suc i))"
    if "i < length rows \<and> malformed py_int py_float (rows ! i)
         \<and> (\<forall>k < i. \<not> malformed py_int py_float (rows ! k))" for i
    using that init_error by blast
  have b: "\<exists>i < length rows. malformed py_int py_float (rows ! i)
             \<and> TraceFileBurstGenerator_init py_int py_float rows st =
                 Inl (row_error py_int py_float (rows ! i) (Suc i))"
    if "\<exists>row \<in> set rows. malformed py_int py_float row"
    using first_malformed [OF that] a by blast
  have e: "row_error py_int py_float row n = InvalidRow n
        \<or> row_error py_int py_float row n = NegativePeriod n"
    by (simp add: row_error_def split: row_result.splits)
  have f: "TraceFileBurstGenerator_init py_int py_float rows st = Inl NoBursts"
    if "(\<forall>row \<in> set rows. \<not> malformed py_int py_float row)
        \<and> retained_rows st (data_rows py_int py_float rows) = []"
    using that by (simp add: init_ok)
  have g: "read_row py_int py_float row = Skip
          \<and> \<not> malformed py_int py_float row
          \<and> load_rows py_int py_float n (row # rows) c self =
              load_rows py_int py_float (Suc n) rows c self"
    if "row = [] \<or> strip (row ! 0) = [] \<or> startswith (strip (row ! 0)) (codepoints ''#'')"
  proof -
    have "read_row py_int py_float row = Skip"
      using that by (cases row) (auto simp: read_row_def Let_def)
    then show ?thesis by (simp add: malformed_def)
  qed
  have h: "malformed py_int py_float row =
            (py_int (strip (row ! 0)) = None \<or> length row < 2
             \<or> py_float (strip (row ! 1)) = None
             \<or> (\<exists>p. py_float (strip (row ! 1)) = Some p \<and> float_lt p (Finite 0)))"
    if asm: "row \<noteq> [] \<and> strip (row ! 0) \<noteq> []
        \<and> \<not> startswith (strip (row ! 0)) (codepoints ''#'')"
  proof -
    obtain x xs where row: "row = x # xs" using asm by (cases row) auto
    have x: "strip x \<noteq> []" "\<not> startswith (strip x) (codepoints ''#'')"
      using asm row by simp_all
    show ?thesis
      using x unfolding row
      by (cases xs) (auto simp: malformed_def read_row_def Let_def split: option.splits)
  qed
  show ?thesis using a b e f g h by blast
qed

theorem trace_load_errors_witness:
  "TraceFileBurstGenerator_init
       (map_of [(codepoints ''100'', 100), (codepoints ''300'', 300)])
       (map_of [(codepoints ''0.0'', Finite 0), (codepoints ''-1'', Finite (- 1))])
       [[codepoints ''# sizes''], [codepoints ''100'', codepoints ''0.0''],
        [codepoints ''abc'', codepoints ''0.0''], [codepoints ''300'', codepoints ''-1'']] (Finite 0)
     = Inl (InvalidRow 3)
   \<and> TraceFileBurstGenerator_init
       (map_of [(codepoints ''100'', 100), (codepoints ''300'', 300)])
       (map_of [(codepoints ''0.0'', Finite 0), (codepoints ''-1'', Finite (- 1))])
       [[codepoints ''100'', codepoints ''0.0''], [[160, 12288]],
        [codepoints ''300'', codepoints ''-1'']] (Finite 0)
     = Inl (NegativePeriod 3)
   \<and> TraceFileBurstGenerator_init
       (map_of [(codepoints ''100'', 100), (codepoints ''300'', 300)])
       (map_of [(codepoints ''0.0'', Finite 0), (codepoints ''-1'', Finite (- 1))])
       [[codepoints ''100'', codepoints ''0.0''], []] (Finite 5)
     = Inl NoBursts"
proof -
  let ?pi = "map_of [(codepoints ''100'', 100), (codepoints ''300'', 300)]"
  let ?pf = "map_of [(codepoints ''0.0'', Finite 0), (codepoints ''-1'', Finite (- 1))]"
  have r: "read_row ?pi ?pf [codepoints ''# sizes''] = Skip"
    "read_row ?pi ?pf [codepoints ''100'', codepoints ''0.0''] = Data 100 (Finite 0)"
    "read_row ?pi ?pf [codepoints ''abc'', codepoints ''0.0''] = Invalid"
    "read_row ?pi ?pf [codepoints ''300'', codepoints ''-1''] = Data 300 (Finite (- 1))"
    "read_row ?pi ?pf [[160, 12288]] = Skip"
    "read_row ?pi ?pf [] = Skip"
    by (simp_all add: read_row_def strip_def isspace_def startswith_def codepoints_def)
  have m: "\<not> malformed ?pi ?pf [codepoints ''# sizes'']"
    "\<not> malformed ?pi ?pf [codepoints ''100'', codepoints ''0.0'']"
    "malformed ?pi ?pf [codepoints ''abc'', codepoints ''0.0'']"
    "malformed ?pi ?pf [codepoints ''300'', codepoints ''-1'']"
    "\<not> malformed ?pi ?pf [[160, 12288]]" "\<not> malformed ?pi ?pf []"
    unfolding malformed_def by (simp_all only: r row_result.case) simp_all
  have e: "row_error ?pi ?pf [codepoints ''abc'', codepoints ''0.0''] 3 = InvalidRow 3"
    "row_error ?pi ?pf [codepoints ''300'', codepoints ''-1''] 3 = NegativePeriod 3"
    unfolding row_error_def by (simp_all only: r row_result.case)
  let ?rows1 = "[[codepoints ''# sizes''], [codepoints ''100'', codepoints ''0.0''],
        [codepoints ''abc'', codepoints ''0.0''], [codepoints ''300'', codepoints ''-1'']]"
  let ?rows2 = "[[codepoints ''100'', codepoints ''0.0''], [[160, 12288]],
        [codepoints ''300'', codepoints ''-1'']]"
  let ?rows3 = "[[codepoints ''100'', codepoints ''0.0''], []]"
  have i1: "(2::nat) < length ?rows1 \<and> malformed ?pi ?pf (?rows1 ! 2)
             \<and> (\<forall>k < 2. \<not> malformed ?pi ?pf (?rows1 ! k))"
    using m by (simp add: less_Suc_eq numeral_2_eq_2 del: map_of.simps)
  have i2: "(2::nat) < length ?rows2 \<and> malformed ?pi ?pf (?rows2 ! 2)
             \<and> (\<forall>k < 2. \<not> malformed ?pi ?pf (?rows2 ! k))"
    using m by (simp add: less_Suc_eq numeral_2_eq_2 del: map_of.simps)
  have i3: "(\<forall>row \<in> set ?rows3. \<not> malformed ?pi ?pf row)
             \<and> retained_rows (Finite 5) (data_rows ?pi ?pf ?rows3) = []"
  proof -
    have "data_rows ?pi ?pf ?rows3 = [(100, Finite 0)]"
      unfolding data_rows_def by (simp only: list.map r row_result.case concat.simps) simp
    then show ?thesis using m by (simp add: retained_rows_from del: map_of.simps)
  qed
  have a: "TraceFileBurstGenerator_init ?pi ?pf ?rows1 (Finite 0) = Inl (InvalidRow 3)"
    using trace_load_errors [of ?rows1 ?pi ?pf "Finite 0", THEN conjunct1, rule_format, OF i1] e
    by (simp add: numeral_3_eq_3 numeral_2_eq_2 del: map_of.simps)
  have b: "TraceFileBurstGenerator_init ?pi ?pf ?rows2 (Finite 0) = Inl (NegativePeriod 3)"
    using trace_load_errors [of ?rows2 ?pi ?pf "Finite 0", THEN conjunct1, rule_format, OF i2] e
    by (simp add: numeral_3_eq_3 numeral_2_eq_2 del: map_of.simps)
  have c: "TraceFileBurstGenerator_init ?pi ?pf ?rows3 (Finite 5) = Inl NoBursts"
    using trace_load_errors [of ?rows3 ?pi ?pf "Finite 5"] i3 by blast
  show ?thesis using a b c by blast
qed


end
